theory Spec2Isabelle
  imports Main "HOL-Library.Sublist"
begin

section \<open>Route synchronisation (scripts/sync\_routes.py)\<close>

text \<open>
  The script reconciles the paths a module declares against the resource tree of one REST
  API of the gateway. The Python functions are translated one by one; the remote services
  they call through boto3 (the gateway control plane, the handler registry, the identity
  service) are state machines whose state is passed explicitly and returned updated.
  Every remote call is appended to a log kept in the client's state, so that what a
  function writes and in which order can be stated. An exception is a value \<open>Inl e\<close>;
  the state that comes with it is the remote state at the moment of the raise.
\<close>

subsection \<open>Python strings\<close>

text \<open>
  Strings are lists of 8-bit characters. \<open>str.upper\<close> is modelled on ASCII: the letters
  \<open>a\<close> to \<open>z\<close> are mapped to \<open>A\<close> to \<open>Z\<close>, every other character is kept.
\<close>

definition upper_char :: "char \<Rightarrow> char" where
  "upper_char ch =
     (let n = (of_char ch :: nat) in if 97 \<le> n \<and> n \<le> 122 then char_of (n - 32) else ch)"

definition upper :: "string \<Rightarrow> string" where
  "upper s = map upper_char s"

text \<open>
  \<open>s.split(sep)\<close>: the occurrences of \<open>sep\<close> are found from left to right and do not
  overlap. Python raises on an empty separator; the script never passes one, and the model
  returns the string whole there.
\<close>

function py_split :: "string \<Rightarrow> string \<Rightarrow> string list" where
  "py_split sep s =
     (if sep = [] then [s]
      else if s = [] then [[]]
      else if prefix sep s then [] # py_split sep (drop (length sep) s)
      else (case py_split sep (tl s) of
              w # ws \<Rightarrow> (hd s # w) # ws
            | [] \<Rightarrow> [[hd s]]))"
  by pat_completeness auto
termination
  by (relation "measure (\<lambda>(sep, s). length s)") auto

declare py_split.simps [simp del]

fun py_join :: "string \<Rightarrow> string list \<Rightarrow> string" where
  "py_join sep [] = []"
| "py_join sep [w] = w"
| "py_join sep (w # v # ws) = w @ sep @ py_join sep (v # ws)"

text \<open>\<open>s.replace(old, new)\<close> for a non-empty \<open>old\<close>: every occurrence, left to right.\<close>

definition py_replace :: "string \<Rightarrow> string \<Rightarrow> string \<Rightarrow> string" where
  "py_replace old new s = py_join new (py_split old s)"

text \<open>
  \<open>a or b\<close> on values that are \<open>None\<close> or a string: \<open>None\<close> and the empty string are
  false.
\<close>

definition truthy :: "string option \<Rightarrow> bool" where
  "truthy v = (case v of None \<Rightarrow> False | Some s \<Rightarrow> s \<noteq> [])"

definition py_or :: "string option \<Rightarrow> string option \<Rightarrow> string option" where
  "py_or a b = (if truthy a then a else b)"

definition py_or_str :: "string option \<Rightarrow> string \<Rightarrow> string" where
  "py_or_str a b = (case a of None \<Rightarrow> b | Some s \<Rightarrow> if s \<noteq> [] then s else b)"

subsection \<open>Exceptions\<close>

datatype error =
    KeyError string
  | ValueError string
  | RuntimeError string
  | FileNotFoundError
  | JSONDecodeError
  | ParamValidationError
  | NoCredentialsError
  | NotFoundException
  | ConflictException
  | ResourceNotFoundException
  | ResourceConflictException

subsection \<open>The gateway control plane\<close>

text \<open>
  The state behind the \<open>apigateway\<close> client: the REST APIs it lists, and, for the one
  REST API a run addresses, the resources in listing order, the methods (resource id and
  verb to authorization type), the integrations and the deployments. The \<open>restApiId\<close> of
  a call is recorded in the log. Resource identifiers are opaque strings; the service
  chooses an unused one for a new resource.
\<close>

record rest_api =
  api_name :: string
  api_id :: string

record resource =
  res_id :: string
  res_parent :: "string option"
  res_path :: string

record integration =
  int_type :: string
  int_http_method :: string
  int_uri :: string

datatype api_call =
    GetRestApis
  | GetResources string
  | CreateResource string "string option" string
  | GetMethod string string string
  | PutMethod string string string string
  | GetIntegration string string string
  | PutIntegration string string string string string string
  | CreateDeployment string string

record gateway =
  rest_apis :: "rest_api list"
  tree :: "resource list"
  methods :: "string \<times> string \<rightharpoonup> string"
  integrations :: "string \<times> string \<rightharpoonup> integration"
  deployments :: "string list"
  calls :: "api_call list"

definition issue :: "api_call \<Rightarrow> gateway \<Rightarrow> gateway" where
  "issue call c = c\<lparr>calls := calls c @ [call]\<rparr>"

text \<open>A paginator hands the items out in pages of at most \<open>limit\<close> items.\<close>

fun pages_of :: "nat \<Rightarrow> 'a list \<Rightarrow> 'a list list" where
  "pages_of limit xs =
     (if xs = [] then []
      else if limit = 0 then [xs]
      else take limit xs # pages_of limit (drop limit xs))"

declare pages_of.simps [simp del]

definition get_rest_apis :: "gateway \<Rightarrow> nat \<Rightarrow> gateway \<times> rest_api list list" where
  "get_rest_apis c limit = (issue GetRestApis c, pages_of limit (rest_apis c))"

definition get_resources :: "gateway \<Rightarrow> string \<Rightarrow> nat \<Rightarrow> gateway \<times> resource list list" where
  "get_resources c rest_api_id limit =
     (issue (GetResources rest_api_id) c, pages_of limit (tree c))"

definition fresh_id :: "string list \<Rightarrow> string" where
  "fresh_id ids = replicate (Suc (foldr (\<lambda>i n. max (length i) n) ids 0)) (CHR ''r'')"

definition child_path :: "string \<Rightarrow> string \<Rightarrow> string" where
  "child_path parent_path path_part =
     (if parent_path = ''/'' then ''/'' @ path_part else parent_path @ ''/'' @ path_part)"

text \<open>
  \<open>create_resource\<close>: the parent must be given and must be a resource of the API, and no
  resource may have the path of the new one already. The new resource is listed last.
\<close>

definition create_resource ::
  "gateway \<Rightarrow> string \<Rightarrow> string option \<Rightarrow> string \<Rightarrow> gateway \<times> (error + string)" where
  "create_resource c rest_api_id parent_id path_part =
     (let c1 = issue (CreateResource rest_api_id parent_id path_part) c in
      case parent_id of
        None \<Rightarrow> (c1, Inl ParamValidationError)
      | Some pid \<Rightarrow>
          (case find (\<lambda>r. res_id r = pid) (tree c) of
             None \<Rightarrow> (c1, Inl NotFoundException)
           | Some parent \<Rightarrow>
               (let p = child_path (res_path parent) path_part in
                if p \<in> set (map res_path (tree c)) then (c1, Inl ConflictException)
                else
                  (let new = fresh_id (map res_id (tree c)) in
                   (c1\<lparr>tree := tree c @
                          [\<lparr>res_id = new, res_parent = Some pid, res_path = p\<rparr>]\<rparr>,
                    Inr new)))))"

definition get_method :: "gateway \<Rightarrow> string \<Rightarrow> string \<Rightarrow> string \<Rightarrow> gateway \<times> (error + unit)" where
  "get_method c rest_api_id resource_id http_method =
     (let c1 = issue (GetMethod rest_api_id resource_id http_method) c in
      case methods c (resource_id, http_method) of
        None \<Rightarrow> (c1, Inl NotFoundException)
      | Some a \<Rightarrow> (c1, Inr ()))"

definition put_method ::
  "gateway \<Rightarrow> string \<Rightarrow> string \<Rightarrow> string \<Rightarrow> string \<Rightarrow> gateway \<times> (error + unit)" where
  "put_method c rest_api_id resource_id http_method authorization_type =
     (let c1 = issue (PutMethod rest_api_id resource_id http_method authorization_type) c in
      if resource_id \<notin> set (map res_id (tree c)) then (c1, Inl NotFoundException)
      else
        (case methods c (resource_id, http_method) of
           Some a \<Rightarrow> (c1, Inl ConflictException)
         | None \<Rightarrow>
             (c1\<lparr>methods := (methods c)((resource_id, http_method) \<mapsto> authorization_type)\<rparr>,
              Inr ())))"

definition get_integration ::
  "gateway \<Rightarrow> string \<Rightarrow> string \<Rightarrow> string \<Rightarrow> gateway \<times> (error + unit)" where
  "get_integration c rest_api_id resource_id http_method =
     (let c1 = issue (GetIntegration rest_api_id resource_id http_method) c in
      case methods c (resource_id, http_method) of
        None \<Rightarrow> (c1, Inl NotFoundException)
      | Some a \<Rightarrow>
          (case integrations c (resource_id, http_method) of
             None \<Rightarrow> (c1, Inl NotFoundException)
           | Some i \<Rightarrow> (c1, Inr ())))"

definition put_integration ::
  "gateway \<Rightarrow> string \<Rightarrow> string \<Rightarrow> string \<Rightarrow> string \<Rightarrow> string \<Rightarrow> string
     \<Rightarrow> gateway \<times> (error + unit)" where
  "put_integration c rest_api_id resource_id http_method type integration_http_method uri =
     (let c1 = issue (PutIntegration rest_api_id resource_id http_method type
                        integration_http_method uri) c in
      case methods c (resource_id, http_method) of
        None \<Rightarrow> (c1, Inl NotFoundException)
      | Some a \<Rightarrow>
          (c1\<lparr>integrations := (integrations c)((resource_id, http_method) \<mapsto>
                 \<lparr>int_type = type, int_http_method = integration_http_method,
                  int_uri = uri\<rparr>)\<rparr>,
           Inr ()))"

definition create_deployment :: "gateway \<Rightarrow> string \<Rightarrow> string \<Rightarrow> gateway \<times> (error + unit)" where
  "create_deployment c rest_api_id stage_name =
     (let c1 = issue (CreateDeployment rest_api_id stage_name) c in
      (c1\<lparr>deployments := deployments c @ [stage_name]\<rparr>, Inr ()))"

subsection \<open>find\_rest\_api\_id\_by\_name\<close>

definition find_rest_api_id_by_name :: "gateway \<Rightarrow> string \<Rightarrow> gateway \<times> string option" where
  "find_rest_api_id_by_name client name =
     (let (c1, pages) = get_rest_apis client 500 in
      (c1, map_option api_id (find (\<lambda>item. api_name item = name) (concat pages))))"

subsection \<open>ensure\_path\<close>

text \<open>The dictionary \<open>resources\<close> filled from the pages: a later item replaces an earlier one.\<close>

definition fetch_resources :: "resource list list \<Rightarrow> (string \<rightharpoonup> string)" where
  "fetch_resources pages =
     foldl (\<lambda>resources page.
              foldl (\<lambda>resources res. resources(res_path res \<mapsto> res_id res)) resources page)
       Map.empty pages"

definition extend_path :: "string \<Rightarrow> string \<Rightarrow> string" where
  "extend_path built_path seg =
     (if built_path \<noteq> [] then built_path @ ''/'' @ seg else ''/'' @ seg)"

text \<open>The loop over the segments; \<open>resources\<close> is the local dictionary.\<close>

fun walk ::
  "gateway \<Rightarrow> string \<Rightarrow> (string \<rightharpoonup> string) \<Rightarrow> string option \<Rightarrow> string \<Rightarrow> string list
     \<Rightarrow> gateway \<times> (error + (string \<rightharpoonup> string))" where
  "walk client rest_api_id resources parent_id built_path [] = (client, Inr resources)"
| "walk client rest_api_id resources parent_id built_path (seg # segments) =
     (let built_path = extend_path built_path seg in
      case resources built_path of
        Some i \<Rightarrow> walk client rest_api_id resources (Some i) built_path segments
      | None \<Rightarrow>
          (case create_resource client rest_api_id parent_id seg of
             (c1, Inl e) \<Rightarrow> (c1, Inl e)
           | (c1, Inr created) \<Rightarrow>
               walk c1 rest_api_id (resources(built_path \<mapsto> created)) (Some created)
                 built_path segments))"

text \<open>\<open>[seg for seg in path.split("/") if seg]\<close>\<close>

definition segments :: "string \<Rightarrow> string list" where
  "segments path = filter (\<lambda>seg. seg \<noteq> []) (py_split ''/'' path)"

definition ensure_path :: "gateway \<Rightarrow> string \<Rightarrow> string \<Rightarrow> gateway \<times> (error + string)" where
  "ensure_path client rest_api_id path =
     (let (c1, pages) = get_resources client rest_api_id 500;
          resources = fetch_resources pages
      in case resources path of
           Some i \<Rightarrow> (c1, Inr i)
         | None \<Rightarrow>
             (let parent_id = resources ''/''
              in case walk c1 rest_api_id resources parent_id [] (segments path) of
                   (c2, Inl e) \<Rightarrow> (c2, Inl e)
                 | (c2, Inr resources') \<Rightarrow>
                     (case resources' path of
                        Some i \<Rightarrow> (c2, Inr i)
                      | None \<Rightarrow> (c2, Inl (KeyError path)))))"

subsection \<open>ensure\_method\_and\_integration\<close>

text \<open>
  What the function reads besides its arguments: the region of a new boto3 session, the
  process environment, and the region the \<open>sts\<close> client it creates was given.
\<close>

record environment =
  session_region :: "string option"
  environ :: "string \<rightharpoonup> string"
  sts_region :: "string option"

definition integration_region :: "environment \<Rightarrow> string" where
  "integration_region env =
     (let region = py_or (py_or (session_region env) (environ env ''AWS_REGION''))
                     (environ env ''AWS_DEFAULT_REGION'')
      in if \<not> truthy region then py_or_str (sts_region env) ''us-east-1''
         else (case region of Some r \<Rightarrow> r | None \<Rightarrow> []))"

definition integration_uri :: "environment \<Rightarrow> string \<Rightarrow> string" where
  "integration_uri env lambda_arn =
     (let uri = ''arn:aws:apigateway:${AWS_REGION}:lambda:path/2015-03-31/functions/'' @
                lambda_arn @ ''/invocations'';
          region = integration_region env
      in py_replace ''${AWS_REGION}'' region uri)"

text \<open>
  The second \<open>try\<close> block holds both the probe and the write, so a \<open>NotFoundException\<close> of
  either one reaches the handler, which writes the integration.
\<close>

definition ensure_method_and_integration ::
  "gateway \<Rightarrow> environment \<Rightarrow> string \<Rightarrow> string \<Rightarrow> string \<Rightarrow> string
     \<Rightarrow> gateway \<times> (error + unit)" where
  "ensure_method_and_integration client env rest_api_id resource_id http_method lambda_arn =
     (let http_method = upper http_method;
          (c1, probe) = get_method client rest_api_id resource_id http_method;
          (c2, r) = (case probe of
                       Inl NotFoundException \<Rightarrow>
                         put_method c1 rest_api_id resource_id http_method ''NONE''
                     | _ \<Rightarrow> (c1, probe))
      in case r of
           Inl e \<Rightarrow> (c2, Inl e)
         | Inr u \<Rightarrow>
             (let uri = integration_uri env lambda_arn;
                  (c3, r3) = get_integration c2 rest_api_id resource_id http_method;
                  (c4, r4) = (case r3 of
                                Inl e \<Rightarrow> (c3, Inl e)
                              | Inr u \<Rightarrow>
                                  put_integration c3 rest_api_id resource_id http_method
                                    ''AWS_PROXY'' ''POST'' uri)
              in case r4 of
                   Inl NotFoundException \<Rightarrow>
                     put_integration c4 rest_api_id resource_id http_method
                       ''AWS_PROXY'' ''POST'' uri
                 | _ \<Rightarrow> (c4, r4)))"

subsection \<open>The handler registry and the identity service\<close>

record lambda_function =
  fn_name :: string
  fn_arn :: string

record statement =
  st_function :: string
  st_sid :: string
  st_action :: string
  st_principal :: string
  st_source_arn :: string

datatype lambda_call =
    GetFunction string
  | AddPermission string string string string string

record lambda_service =
  lambda_functions :: "lambda_function list"
  statements :: "statement list"
  lambda_calls :: "lambda_call list"

text \<open>\<open>FunctionName\<close> is the name of a function or its ARN.\<close>

definition get_function :: "lambda_service \<Rightarrow> string \<Rightarrow> lambda_service \<times> (error + string)" where
  "get_function l function_name =
     (let l1 = l\<lparr>lambda_calls := lambda_calls l @ [GetFunction function_name]\<rparr> in
      case find (\<lambda>f. fn_name f = function_name \<or> fn_arn f = function_name) (lambda_functions l) of
        None \<Rightarrow> (l1, Inl ResourceNotFoundException)
      | Some f \<Rightarrow> (l1, Inr (fn_arn f)))"

definition add_permission ::
  "lambda_service \<Rightarrow> string \<Rightarrow> string \<Rightarrow> string \<Rightarrow> string \<Rightarrow> string
     \<Rightarrow> lambda_service \<times> (error + unit)" where
  "add_permission l function_name statement_id action principal_name source_arn =
     (let l1 = l\<lparr>lambda_calls := lambda_calls l @
                  [AddPermission function_name statement_id action principal_name source_arn]\<rparr> in
      case find (\<lambda>f. fn_name f = function_name \<or> fn_arn f = function_name) (lambda_functions l) of
        None \<Rightarrow> (l1, Inl ResourceNotFoundException)
      | Some f \<Rightarrow>
          (if \<exists>st \<in> set (statements l). st_function st = fn_arn f \<and> st_sid st = statement_id
           then (l1, Inl ResourceConflictException)
           else (l1\<lparr>statements := statements l @
                       [\<lparr>st_function = fn_arn f, st_sid = statement_id, st_action = action,
                         st_principal = principal_name, st_source_arn = source_arn\<rparr>]\<rparr>,
                 Inr ())))"

record sts_service =
  account :: "string option"
  sts_calls :: nat

definition get_caller_identity :: "sts_service \<Rightarrow> sts_service \<times> (error + string)" where
  "get_caller_identity s =
     (let s1 = s\<lparr>sts_calls := Suc (sts_calls s)\<rparr> in
      case account s of None \<Rightarrow> (s1, Inl NoCredentialsError) | Some a \<Rightarrow> (s1, Inr a))"

subsection \<open>add\_permission\_for\_apigw and deploy\_stage\<close>

definition statement_id :: "string \<Rightarrow> string \<Rightarrow> string" where
  "statement_id rest_api_id function_name = ''apigw-'' @ rest_api_id @ ''-'' @ function_name"

definition add_permission_for_apigw ::
  "lambda_service \<Rightarrow> string \<Rightarrow> string \<Rightarrow> string \<Rightarrow> string \<Rightarrow> lambda_service \<times> (error + unit)" where
  "add_permission_for_apigw lambda_client lambda_arn rest_api_id account_id region =
     (let function_name = last (py_split '':function:'' lambda_arn);
          sid = statement_id rest_api_id function_name;
          source_arn = ''arn:aws:execute-api:'' @ region @ '':'' @ account_id @ '':'' @
                       rest_api_id @ ''/*/*/*''
      in case add_permission lambda_client lambda_arn sid ''lambda:InvokeFunction''
                ''apigateway.amazonaws.com'' source_arn of
           (l1, Inl ResourceConflictException) \<Rightarrow> (l1, Inr ())
         | (l1, r) \<Rightarrow> (l1, r))"

definition deploy_stage :: "gateway \<Rightarrow> string \<Rightarrow> string \<Rightarrow> gateway \<times> (error + unit)" where
  "deploy_stage client rest_api_id stage = create_deployment client rest_api_id stage"

subsection \<open>load\_paths\<close>

text \<open>
  What \<open>json.load\<close> returns. Numbers are the integers (floating point is left out), an
  object is the list of its items in order. The file system maps a path to the parsed
  content of the file, \<open>None\<close> where the content is not JSON.
\<close>

datatype json =
    JNull
  | JBool bool
  | JInt int
  | JStr string
  | JArr "json list"
  | JObj "(string \<times> json) list"

fun dec :: "nat \<Rightarrow> string" where
  "dec n = (if n < 10 then [char_of (48 + n)] else dec (n div 10) @ [char_of (48 + n mod 10)])"

declare dec.simps [simp del]

definition str_int :: "int \<Rightarrow> string" where
  "str_int i = (if i < 0 then ''-'' @ dec (nat (- i)) else dec (nat i))"

definition hex_digit :: "nat \<Rightarrow> char" where
  "hex_digit d = (if d < 10 then char_of (48 + d) else char_of (87 + d))"

text \<open>
  \<open>repr\<close> of a string of ASCII characters: double quotes when the string has a single
  quote and no double quote, single quotes otherwise; the quote and the backslash are
  escaped, and so are the control characters.
\<close>

definition repr_char :: "char \<Rightarrow> char \<Rightarrow> string" where
  "repr_char quote ch =
     (let n = (of_char ch :: nat) in
      if ch = quote \<or> ch = CHR 0x5C then [CHR 0x5C, ch]
      else if ch = CHR 0x09 then [CHR 0x5C, CHR ''t'']
      else if ch = CHR 0x0A then [CHR 0x5C, CHR ''n'']
      else if ch = CHR 0x0D then [CHR 0x5C, CHR ''r'']
      else if n < 32 \<or> n = 127 then [CHR 0x5C, CHR ''x'', hex_digit (n div 16), hex_digit (n mod 16)]
      else [ch])"

definition repr_str :: "string \<Rightarrow> string" where
  "repr_str s =
     (let quote = (if CHR 0x27 \<in> set s \<and> CHR 0x22 \<notin> set s then CHR 0x22 else CHR 0x27)
      in [quote] @ concat (map (repr_char quote) s) @ [quote])"

fun py_repr :: "json \<Rightarrow> string" where
  "py_repr JNull = ''None''"
| "py_repr (JBool b) = (if b then ''True'' else ''False'')"
| "py_repr (JInt i) = str_int i"
| "py_repr (JStr s) = repr_str s"
| "py_repr (JArr xs) = ''['' @ py_join '', '' (map py_repr xs) @ '']''"
| "py_repr (JObj kvs) =
     ''{'' @ py_join '', '' (map (\<lambda>kv. repr_str (fst kv) @ '': '' @ py_repr (snd kv)) kvs) @ ''}''"

definition py_str :: "json \<Rightarrow> string" where
  "py_str v = (case v of JStr s \<Rightarrow> s | _ \<Rightarrow> py_repr v)"

definition load_paths :: "(string \<rightharpoonup> json option) \<Rightarrow> string \<Rightarrow> error + string list" where
  "load_paths files config_path =
     (case files config_path of
        None \<Rightarrow> Inl FileNotFoundError
      | Some None \<Rightarrow> Inl JSONDecodeError
      | Some (Some data) \<Rightarrow>
          (case data of
             JArr ps \<Rightarrow> Inr (map py_str ps)
           | _ \<Rightarrow> Inl (ValueError ''config.json must be a JSON array of path strings'')))"

subsection \<open>main\<close>

text \<open>
  The arguments after parsing; \<open>arg_config_path\<close> is the value of \<open>config_path\<close>, which
  \<open>os.path\<close> computes from \<open>--modules-dir\<close> and \<open>--module\<close>. The \<open>print\<close> calls are left
  out.
\<close>

record args =
  arg_module :: string
  arg_stage :: string
  arg_api_name :: string
  arg_lambda_name_prefix :: string
  arg_config_path :: string

record world =
  apigw :: gateway
  lambda_client :: lambda_service
  sts :: sts_service
  file_system :: "string \<rightharpoonup> json option"
  process_env :: environment

definition fixed_methods :: "string list" where
  "fixed_methods = [''GET'', ''POST'', ''PUT'', ''DELETE'', ''PATCH'', ''OPTIONS'']"

text \<open>The inner loop of \<open>main\<close>, over the methods, and the outer one, over the paths.\<close>

fun ensure_methods ::
  "gateway \<Rightarrow> environment \<Rightarrow> string \<Rightarrow> string \<Rightarrow> string \<Rightarrow> string list
     \<Rightarrow> gateway \<times> (error + unit)" where
  "ensure_methods client env rest_api_id resource_id lambda_arn [] = (client, Inr ())"
| "ensure_methods client env rest_api_id resource_id lambda_arn (method # rest) =
     (case ensure_method_and_integration client env rest_api_id resource_id method lambda_arn of
        (c1, Inl e) \<Rightarrow> (c1, Inl e)
      | (c1, Inr u) \<Rightarrow> ensure_methods c1 env rest_api_id resource_id lambda_arn rest)"

fun sync_paths ::
  "gateway \<Rightarrow> environment \<Rightarrow> string \<Rightarrow> string \<Rightarrow> string list \<Rightarrow> gateway \<times> (error + unit)" where
  "sync_paths client env rest_api_id lambda_arn [] = (client, Inr ())"
| "sync_paths client env rest_api_id lambda_arn (path # rest) =
     (case ensure_path client rest_api_id path of
        (c1, Inl e) \<Rightarrow> (c1, Inl e)
      | (c1, Inr resource_id) \<Rightarrow>
          (case ensure_methods c1 env rest_api_id resource_id lambda_arn fixed_methods of
             (c2, Inl e) \<Rightarrow> (c2, Inl e)
           | (c2, Inr u) \<Rightarrow> sync_paths c2 env rest_api_id lambda_arn rest))"

definition main_region :: "environment \<Rightarrow> string" where
  "main_region env =
     py_or_str (py_or (py_or (session_region env) (environ env ''AWS_REGION''))
                  (environ env ''AWS_DEFAULT_REGION''))
       ''us-east-1''"

definition main :: "args \<Rightarrow> world \<Rightarrow> world \<times> (error + unit)" where
  "main args w0 =
     (let config_path = arg_config_path args;
          lambda_name = arg_lambda_name_prefix args @ arg_module args;
          (s1, identity) = get_caller_identity (sts w0);
          w1 = w0\<lparr>sts := s1\<rparr>
      in case identity of
           Inl e \<Rightarrow> (w1, Inl e)
         | Inr account_id \<Rightarrow>
      (let region = main_region (process_env w1);
           (g1, found) = find_rest_api_id_by_name (apigw w1) (arg_api_name args);
           w2 = w1\<lparr>apigw := g1\<rparr>
       in if \<not> truthy found then
            (w2, Inl (RuntimeError (''REST API with name '' @ arg_api_name args @
                        '' not found. Ensure SAM created it: '' @ arg_api_name args)))
          else
      (let rest_api_id = (case found of Some i \<Rightarrow> i | None \<Rightarrow> []);
           (l1, lambda_fn) = get_function (lambda_client w2) lambda_name;
           w3 = w2\<lparr>lambda_client := l1\<rparr>
       in case lambda_fn of
            Inl e \<Rightarrow> (w3, Inl e)
          | Inr lambda_arn \<Rightarrow>
      (case load_paths (file_system w3) config_path of
         Inl e \<Rightarrow> (w3, Inl e)
       | Inr paths \<Rightarrow>
      (let (g2, synced) = sync_paths (apigw w3) (process_env w3) rest_api_id lambda_arn paths;
           w4 = w3\<lparr>apigw := g2\<rparr>
       in case synced of
            Inl e \<Rightarrow> (w4, Inl e)
          | Inr u \<Rightarrow>
      (let (l2, granted) = add_permission_for_apigw (lambda_client w4) lambda_arn rest_api_id
                             account_id region;
           w5 = w4\<lparr>lambda_client := l2\<rparr>
       in case granted of
            Inl e \<Rightarrow> (w5, Inl e)
          | Inr u \<Rightarrow>
      (let (g3, deployed) = deploy_stage (apigw w5) rest_api_id (arg_stage args)
       in (w5\<lparr>apigw := g3\<rparr>, deployed))))))))"

section \<open>Notions used to state the properties\<close>

text \<open>The dictionary \<open>ensure_path\<close> fetches, and the calls a function adds to the log.\<close>

definition fetched :: "gateway \<Rightarrow> string \<Rightarrow> (string \<rightharpoonup> string)" where
  "fetched client rest_api_id = fetch_resources (snd (get_resources client rest_api_id 500))"

definition new_calls :: "gateway \<Rightarrow> gateway \<Rightarrow> api_call list" where
  "new_calls before after = drop (length (calls before)) (calls after)"

fun is_put_integration :: "api_call \<Rightarrow> bool" where
  "is_put_integration (PutIntegration a b c d e f) = True"
| "is_put_integration _ = False"

fun is_put_method :: "api_call \<Rightarrow> bool" where
  "is_put_method (PutMethod a b c d) = True"
| "is_put_method _ = False"

fun is_create_resource :: "api_call \<Rightarrow> bool" where
  "is_create_resource (CreateResource a b c) = True"
| "is_create_resource _ = False"

fun call_verb :: "api_call \<Rightarrow> string option" where
  "call_verb (GetMethod a b v) = Some v"
| "call_verb (PutMethod a b v d) = Some v"
| "call_verb (GetIntegration a b v) = Some v"
| "call_verb (PutIntegration a b v d e f) = Some v"
| "call_verb _ = None"

text \<open>
  The dictionary as a function of the listed resources, without the pages: what
  \<open>fetched\<close> is (lemma \<open>fetched_table\<close>).
\<close>

definition table :: "resource list \<Rightarrow> (string \<rightharpoonup> string)" where
  "table rs = foldl (\<lambda>resources res. resources(res_path res \<mapsto> res_id res)) Map.empty rs"

text \<open>
  The steps of the loop of \<open>ensure_path\<close> on a list of segments, from a given
  \<open>built_path\<close>: for every segment the path of the parent (the root for the first
  segment), the segment, and the partial path built (\<open>/a\<close>, \<open>/a/b\<close>, ...). \<open>missing\<close>
  keeps the steps whose partial path is not in a dictionary; \<open>todo\<close> is what one call
  of \<open>ensure_path\<close> has to create. A step is turned into the resource created for it and
  into the \<open>create_resource\<close> call that creates it, the ids being read in a dictionary.
\<close>

fun plan :: "string \<Rightarrow> string list \<Rightarrow> (string \<times> string \<times> string) list" where
  "plan built_path [] = []"
| "plan built_path (seg # segs) =
     ((if built_path = [] then ''/'' else built_path), seg, extend_path built_path seg) #
     plan (extend_path built_path seg) segs"

definition missing :: "(string \<rightharpoonup> string) \<Rightarrow> (string \<times> string \<times> string) list
    \<Rightarrow> (string \<times> string \<times> string) list" where
  "missing m steps = filter (\<lambda>(parent_path, seg, p). m p = None) steps"

definition todo :: "(string \<rightharpoonup> string) \<Rightarrow> string \<Rightarrow> (string \<times> string \<times> string) list" where
  "todo m path = (if m path = None then missing m (plan [] (segments path)) else [])"

definition created_resource :: "(string \<rightharpoonup> string) \<Rightarrow> string \<times> string \<times> string \<Rightarrow> resource" where
  "created_resource m step =
     (case step of (parent_path, seg, p) \<Rightarrow>
        \<lparr>res_id = the (m p), res_parent = m parent_path, res_path = p\<rparr>)"

definition create_call :: "string \<Rightarrow> (string \<rightharpoonup> string) \<Rightarrow> string \<times> string \<times> string \<Rightarrow> api_call" where
  "create_call rest_api_id m step =
     (case step of (parent_path, seg, p) \<Rightarrow> CreateResource rest_api_id (m parent_path) seg)"

text \<open>
  A gateway tree: the resource ids are distinct and the root is listed; it is closed
  when the partial paths of every listed path are listed too.
\<close>

definition well_formed :: "gateway \<Rightarrow> bool" where
  "well_formed c = (distinct (map res_id (tree c)) \<and> ''/'' \<in> set (map res_path (tree c)))"

definition prefix_closed :: "gateway \<Rightarrow> bool" where
  "prefix_closed c =
     (\<forall>r \<in> set (tree c). \<forall>step \<in> set (plan [] (segments (res_path r))).
        snd (snd step) \<in> set (map res_path (tree c)))"

text \<open>
  A list of calls is quiet when it has no \<open>create_resource\<close> and no \<open>put_method\<close>.
  For a second run: a path is done in a state when it is listed and its resource has the
  six methods; it is stuck when it is not listed although its partial paths all are (the
  loop then creates nothing and the final lookup raises \<open>KeyError\<close>). A list of paths
  is settled when every path before the first stuck one is done; \<open>verdict\<close> is the
  result of a run on a settled list. \<open>grows\<close>: resources and methods are only added.
\<close>

definition quiet :: "api_call list \<Rightarrow> bool" where
  "quiet xs = (filter is_create_resource xs = [] \<and> filter is_put_method xs = [])"

definition done_path :: "gateway \<Rightarrow> string \<Rightarrow> bool" where
  "done_path c path =
     (\<exists>i. table (tree c) path = Some i \<and>
          (\<forall>v \<in> set fixed_methods. methods c (i, upper v) \<noteq> None))"

definition stuck_path :: "gateway \<Rightarrow> string \<Rightarrow> bool" where
  "stuck_path c path =
     (table (tree c) path = None \<and>
      (\<forall>step \<in> set (plan [] (segments path)). table (tree c) (snd (snd step)) \<noteq> None))"

fun settled :: "gateway \<Rightarrow> string list \<Rightarrow> bool" where
  "settled c [] = True"
| "settled c (path # paths) = (stuck_path c path \<or> (done_path c path \<and> settled c paths))"

fun verdict :: "gateway \<Rightarrow> string list \<Rightarrow> error + unit" where
  "verdict c [] = Inr ()"
| "verdict c (path # paths) =
     (if stuck_path c path then Inl (KeyError path) else verdict c paths)"

definition grows :: "gateway \<Rightarrow> gateway \<Rightarrow> bool" where
  "grows c c' =
     ((\<exists>news. tree c' = tree c @ news \<and> (\<forall>r \<in> set news. table (tree c) (res_path r) = None)) \<and>
      (\<forall>k. methods c k \<noteq> None \<longrightarrow> methods c' k \<noteq> None))"

subsection \<open>Example inputs\<close>

definition example_gateway :: gateway where
  "example_gateway =
     \<lparr>rest_apis = [\<lparr>api_name = ''MainApiGateway'', api_id = ''api1''\<rparr>],
      tree = [\<lparr>res_id = ''root'', res_parent = None, res_path = ''/''\<rparr>],
      methods = Map.empty, integrations = Map.empty, deployments = [], calls = []\<rparr>"

definition example_env :: environment where
  "example_env = \<lparr>session_region = Some ''eu-west-1'', environ = Map.empty, sts_region = None\<rparr>"

definition example_arn :: string where
  "example_arn = ''arn:aws:lambda:eu-west-1:42:function:project-users''"

definition example_lambda :: lambda_service where
  "example_lambda =
     \<lparr>lambda_functions = [\<lparr>fn_name = ''project-users'', fn_arn = example_arn\<rparr>],
      statements = [], lambda_calls = []\<rparr>"

definition example_granted :: lambda_service where
  "example_granted =
     fst (add_permission_for_apigw example_lambda example_arn ''api1'' ''42'' ''eu-west-1'')"

definition example_world :: world where
  "example_world =
     \<lparr>apigw = example_gateway, lambda_client = example_lambda,
      sts = \<lparr>account = Some ''42'', sts_calls = 0\<rparr>,
      file_system = [''/modules/users/config.json'' \<mapsto> Some (JObj [])],
      process_env = example_env\<rparr>"

definition example_null_world :: world where
  "example_null_world =
     example_world\<lparr>file_system := [''/modules/users/config.json'' \<mapsto> Some (JArr [JNull])]\<rparr>"

definition example_args :: args where
  "example_args =
     \<lparr>arg_module = ''users'', arg_stage = ''prod'', arg_api_name = ''MainApiGateway'',
      arg_lambda_name_prefix = ''project-'', arg_config_path = ''/modules/users/config.json''\<rparr>"

section \<open>Properties\<close>

subsection \<open>The fetched dictionary and the loop of ensure\_path\<close>

lemma concat_pages_of: "concat (pages_of limit xs) = xs"
proof (induction limit xs rule: pages_of.induct)
  case (1 limit xs)
  then show ?case by (subst pages_of.simps) auto
qed

lemma foldl_concat_pages: "foldl (\<lambda>m page. foldl f m page) m pages = foldl f m (concat pages)"
  by (induction pages arbitrary: m) auto

lemma fetched_table: "fetched c rest_api_id = table (tree c)"
  by (simp add: fetched_def fetch_resources_def get_resources_def table_def
      foldl_concat_pages concat_pages_of)

lemma table_Nil: "table [] = Map.empty"
  by (simp add: table_def)

lemma table_snoc: "table (rs @ [r]) = (table rs)(res_path r \<mapsto> res_id r)"
  by (simp add: table_def)

lemma dom_table: "dom (table rs) = res_path ` set rs"
proof (induction rs rule: rev_induct)
  case Nil
  then show ?case by (simp add: table_Nil)
next
  case (snoc r rs)
  have "dom (table (rs @ [r])) = insert (res_path r) (dom (table rs))"
    by (simp add: table_snoc)
  with snoc show ?case by simp
qed

lemma table_Some: "table rs p = Some i \<Longrightarrow> \<exists>r \<in> set rs. res_path r = p \<and> res_id r = i"
  by (induction rs rule: rev_induct) (auto simp: table_Nil table_snoc split: if_splits)

lemma table_append_new:
  "p \<notin> res_path ` set news \<Longrightarrow> table (rs @ news) p = table rs p"
proof (induction news rule: rev_induct)
  case Nil
  then show ?case by simp
next
  case (snoc r news)
  have "table (rs @ news @ [r]) = (table (rs @ news))(res_path r \<mapsto> res_id r)"
    using table_snoc [of "rs @ news" r] by simp
  with snoc show ?case by auto
qed

lemma find_by_id:
  "distinct (map res_id rs) \<Longrightarrow> r \<in> set rs \<Longrightarrow> find (\<lambda>x. res_id x = res_id r) rs = Some r"
  by (induction rs) (auto simp: rev_image_eqI)

lemma length_le_fold: "i \<in> set ids \<Longrightarrow> length i \<le> foldr (\<lambda>i n. max (length i) n) ids 0"
  by (induction ids) auto

lemma fresh_id_fresh: "fresh_id ids \<notin> set ids"
proof
  assume "fresh_id ids \<in> set ids"
  then have "length (fresh_id ids) \<le> foldr (\<lambda>i n. max (length i) n) ids 0"
    by (rule length_le_fold)
  then show False by (simp add: fresh_id_def)
qed

lemma extend_path_length: "length built < length (extend_path built seg)"
  by (simp add: extend_path_def)

lemma plan_longer: "(pp, seg, p) \<in> set (plan built segs) \<Longrightarrow> length built < length p"
proof (induction segs arbitrary: built)
  case Nil
  then show ?case by simp
next
  case (Cons s segs)
  then show ?case
    using extend_path_length [of built s] by (auto dest: Cons.IH)
qed

lemma missing_upd:
  "\<forall>(pp, seg, p) \<in> set steps. p \<noteq> q \<Longrightarrow> missing (m(q \<mapsto> i)) steps = missing m steps"
  unfolding missing_def by (rule filter_cong) auto

lemma create_resource_ok:
  assumes ids: "distinct (map res_id (tree c))"
    and parent: "table (tree c) pp = Some pid"
    and fresh: "table (tree c) (child_path pp seg) = None"
  shows "create_resource c rest_api_id (Some pid) seg =
           (c\<lparr>calls := calls c @ [CreateResource rest_api_id (Some pid) seg],
              tree := tree c @ [\<lparr>res_id = fresh_id (map res_id (tree c)), res_parent = Some pid,
                                 res_path = child_path pp seg\<rparr>]\<rparr>,
            Inr (fresh_id (map res_id (tree c))))"
proof -
  from parent obtain r where r: "r \<in> set (tree c)" "res_path r = pp" "res_id r = pid"
    using table_Some by blast
  have found: "find (\<lambda>x. res_id x = pid) (tree c) = Some r"
    using find_by_id [OF ids r(1)] r(3) by simp
  have "child_path pp seg \<notin> dom (table (tree c))"
    using fresh by (simp add: domIff)
  then have new: "child_path pp seg \<notin> res_path ` set (tree c)"
    by (simp add: dom_table)
  show ?thesis
    using found new r(2) by (simp add: create_resource_def issue_def Let_def)
qed

lemma created_resource_path: "res_path (created_resource m (pp, seg, p)) = p"
  by (simp add: created_resource_def)

lemma missing_paths:
  "r \<in> set (map (created_resource m') (missing m steps)) \<Longrightarrow> m (res_path r) = None"
  by (auto simp: missing_def created_resource_def)

lemma table_grows:
  assumes "tree c' = tree c @ map (created_resource m') (missing (table (tree c)) steps)"
    and "table (tree c) q = Some i"
  shows "table (tree c') q = Some i"
proof -
  have "q \<notin> res_path ` set (map (created_resource m') (missing (table (tree c)) steps))"
    using assms(2) missing_paths [of _ m' "table (tree c)" steps] by force
  then show ?thesis
    using assms by (simp add: table_append_new)
qed

lemma child_path_extend:
  "built \<noteq> ''/'' \<Longrightarrow> child_path (if built = [] then ''/'' else built) seg = extend_path built seg"
  by (simp add: child_path_def extend_path_def)

lemma extend_path_not_root: "seg \<noteq> [] \<Longrightarrow> extend_path built seg \<noteq> ''/''"
  by (cases seg) (auto simp: extend_path_def Cons_eq_append_conv)

lemma extend_path_not_Nil: "extend_path built seg \<noteq> []"
  by (simp add: extend_path_def)

lemma walk_creates:
  assumes "distinct (map res_id (tree c))"
    and "pp = (if built = [] then ''/'' else built)"
    and "table (tree c) pp \<noteq> None"
    and "built \<noteq> ''/''"
    and "[] \<notin> set segs"
  shows "\<exists>c'. walk c rest_api_id (table (tree c)) (table (tree c) pp) built segs =
                 (c', Inr (table (tree c'))) \<and>
           distinct (map res_id (tree c')) \<and>
           tree c' = tree c @ map (created_resource (table (tree c')))
                                (missing (table (tree c)) (plan built segs)) \<and>
           calls c' = calls c @ map (create_call rest_api_id (table (tree c')))
                                  (missing (table (tree c)) (plan built segs)) \<and>
           methods c' = methods c \<and> integrations c' = integrations c \<and>
           rest_apis c' = rest_apis c \<and> deployments c' = deployments c \<and>
           (\<forall>step \<in> set (plan built segs). table (tree c') (snd (snd step)) \<noteq> None)"
  using assms
proof (induction segs arbitrary: c built pp)
  case Nil
  then show ?case by (simp add: missing_def)
next
  case (Cons seg segs)
  define b where "b = extend_path built seg"
  define T where "T = table (tree c)"
  have seg: "seg \<noteq> []" and segs: "[] \<notin> set segs"
    using Cons.prems(5) by auto
  have b_root: "b \<noteq> ''/''" and b_Nil: "b \<noteq> []"
    using seg by (simp_all add: b_def extend_path_not_root extend_path_not_Nil)
  have child: "child_path pp seg = b"
    using Cons.prems(2,4) by (simp add: b_def child_path_extend)
  have plan_eq: "plan built (seg # segs) = (pp, seg, b) # plan b segs"
    using Cons.prems(2) by (simp add: b_def)
  show ?case
  proof (cases "T b")
    case (Some i)
    have p2: "b = (if b = [] then ''/'' else b)"
      using b_Nil by simp
    have p3: "table (tree c) b \<noteq> None"
      using Some by (simp add: T_def)
    note IH = Cons.IH [OF Cons.prems(1) p2 p3 b_root segs]
    from IH obtain c' where c':
      "walk c rest_api_id T (T b) b segs = (c', Inr (table (tree c')))"
      "distinct (map res_id (tree c'))"
      "tree c' = tree c @ map (created_resource (table (tree c'))) (missing T (plan b segs))"
      "calls c' = calls c @ map (create_call rest_api_id (table (tree c')))
                              (missing T (plan b segs))"
      "methods c' = methods c" "integrations c' = integrations c"
      "rest_apis c' = rest_apis c" "deployments c' = deployments c"
      "\<forall>step \<in> set (plan b segs). table (tree c') (snd (snd step)) \<noteq> None"
      unfolding T_def by blast
    have miss: "missing T (plan built (seg # segs)) = missing T (plan b segs)"
      unfolding plan_eq using Some by (simp add: missing_def)
    have "table (tree c') b = Some i"
      using table_grows [of c' c "table (tree c')" "plan b segs" b i] c'(3) Some
      by (simp add: T_def)
    then have all: "\<forall>step \<in> set (plan built (seg # segs)). table (tree c') (snd (snd step)) \<noteq> None"
      unfolding plan_eq using c'(9) by simp
    have run: "walk c rest_api_id T (T pp) built (seg # segs) = (c', Inr (table (tree c')))"
      using Some c'(1) by (simp add: b_def [symmetric])
    show ?thesis
      using run c'(2-8) all miss unfolding T_def [symmetric] by (intro exI [of _ c']) simp
  next
    case None
    from Cons.prems(3) obtain pid where pid: "T pp = Some pid"
      by (auto simp: T_def)
    define new where "new = fresh_id (map res_id (tree c))"
    define c1 where "c1 = c\<lparr>calls := calls c @ [CreateResource rest_api_id (Some pid) seg],
              tree := tree c @ [\<lparr>res_id = new, res_parent = Some pid, res_path = b\<rparr>]\<rparr>"
    have created: "create_resource c rest_api_id (Some pid) seg = (c1, Inr new)"
      using create_resource_ok [OF Cons.prems(1), of pp pid seg rest_api_id] pid None child
      by (simp add: T_def c1_def new_def)
    have T1: "table (tree c1) = T(b \<mapsto> new)"
      by (simp add: c1_def table_snoc T_def)
    have ids1: "distinct (map res_id (tree c1))"
      using Cons.prems(1) fresh_id_fresh [of "map res_id (tree c)"] by (simp add: c1_def new_def)
    have p2: "b = (if b = [] then ''/'' else b)"
      using b_Nil by simp
    have p3: "table (tree c1) b \<noteq> None"
      by (simp add: T1)
    note IH = Cons.IH [OF ids1 p2 p3 b_root segs]
    have miss1: "missing (table (tree c1)) (plan b segs) = missing T (plan b segs)"
      unfolding T1 by (rule missing_upd) (auto dest: plan_longer)
    from IH obtain c' where c0:
      "walk c1 rest_api_id (table (tree c1)) (table (tree c1) b) b segs =
         (c', Inr (table (tree c')))"
      "distinct (map res_id (tree c'))"
      "tree c' = tree c1 @ map (created_resource (table (tree c')))
                             (missing (table (tree c1)) (plan b segs))"
      "calls c' = calls c1 @ map (create_call rest_api_id (table (tree c')))
                              (missing (table (tree c1)) (plan b segs))"
      "methods c' = methods c1" "integrations c' = integrations c1"
      "rest_apis c' = rest_apis c1" "deployments c' = deployments c1"
      "\<forall>step \<in> set (plan b segs). table (tree c') (snd (snd step)) \<noteq> None"
      by blast
    have "table (tree c1) b = Some new"
      by (simp add: T1)
    then have c'1: "walk c1 rest_api_id (T(b \<mapsto> new)) (Some new) b segs =
        (c', Inr (table (tree c')))"
      using c0(1) by (simp only: T1)
    note c' = c'1 c0(2) c0(3) [unfolded miss1] c0(4) [unfolded miss1] c0(5-9)
    have grow: "table (tree c1) q = Some i \<Longrightarrow> table (tree c') q = Some i" for q i
      using table_grows [of c' c1 "table (tree c')" "plan b segs" q i] c'(3) miss1 by simp
    have Tb: "table (tree c') b = Some new"
      using grow [of b new] by (simp add: T1)
    have "pp \<noteq> b"
      using pid None by auto
    then have Tpp: "table (tree c') pp = Some pid"
      using grow [of pp pid] pid by (simp add: T1)
    have miss: "missing T (plan built (seg # segs)) = (pp, seg, b) # missing T (plan b segs)"
      unfolding plan_eq using None by (simp add: missing_def)
    have run: "walk c rest_api_id T (T pp) built (seg # segs) = (c', Inr (table (tree c')))"
      using None created c'(1) pid by (simp add: b_def [symmetric])
    have tree': "tree c' = tree c @ map (created_resource (table (tree c')))
                                (missing T (plan built (seg # segs)))"
      unfolding miss using c'(3) Tb Tpp by (simp add: c1_def created_resource_def)
    have calls': "calls c' = calls c @ map (create_call rest_api_id (table (tree c')))
                                (missing T (plan built (seg # segs)))"
      unfolding miss using c'(4) Tpp by (simp add: c1_def create_call_def)
    have all: "\<forall>step \<in> set (plan built (seg # segs)). table (tree c') (snd (snd step)) \<noteq> None"
      unfolding plan_eq using c'(9) Tb by simp
    have rest: "methods c' = methods c" "integrations c' = integrations c"
      "rest_apis c' = rest_apis c" "deployments c' = deployments c"
      using c'(5-8) by (simp_all add: c1_def)
    show ?thesis
      using run c'(2) tree' calls' rest all unfolding T_def [symmetric]
      by (intro exI [of _ c']) simp
  qed
qed

lemma ensure_path_spec:
  assumes ids: "distinct (map res_id (tree c))" and root: "table (tree c) ''/'' \<noteq> None"
  shows "\<exists>c'. ensure_path c rest_api_id path =
                 (c', case table (tree c') path of
                        Some i \<Rightarrow> Inr i | None \<Rightarrow> Inl (KeyError path)) \<and>
           distinct (map res_id (tree c')) \<and>
           tree c' = tree c @ map (created_resource (table (tree c')))
                                (todo (table (tree c)) path) \<and>
           calls c' = calls c @ GetResources rest_api_id #
                        map (create_call rest_api_id (table (tree c')))
                          (todo (table (tree c)) path) \<and>
           methods c' = methods c \<and> integrations c' = integrations c \<and>
           rest_apis c' = rest_apis c \<and> deployments c' = deployments c \<and>
           (table (tree c) path \<noteq> None \<or>
            (\<forall>step \<in> set (plan [] (segments path)).
               table (tree c') (snd (snd step)) \<noteq> None))"
proof (cases "table (tree c) path")
  case (Some i)
  have "ensure_path c rest_api_id path = (issue (GetResources rest_api_id) c, Inr i)"
    using Some fetched_table [of c rest_api_id]
    by (simp add: ensure_path_def fetched_def get_resources_def)
  then show ?thesis
    using Some ids by (intro exI [of _ "issue (GetResources rest_api_id) c"])
      (simp add: issue_def todo_def)
next
  case None
  define c1 where "c1 = issue (GetResources rest_api_id) c"
  have t1: "tree c1 = tree c"
    by (simp add: c1_def issue_def)
  have ids1: "distinct (map res_id (tree c1))"
    using ids by (simp add: t1)
  have p2: "''/'' = (if ([]::string) = [] then ''/'' else [])"
    by simp
  have p3: "table (tree c1) ''/'' \<noteq> None"
    using root by (simp add: t1)
  have p5: "[] \<notin> set (segments path)"
    by (simp add: segments_def)
  from walk_creates [OF ids1 p2 p3 _ p5, of rest_api_id]
  obtain c' where c':
      "walk c1 rest_api_id (table (tree c1)) (table (tree c1) ''/'') [] (segments path) =
         (c', Inr (table (tree c')))"
      "distinct (map res_id (tree c'))"
      "tree c' = tree c1 @ map (created_resource (table (tree c')))
                             (missing (table (tree c1)) (plan [] (segments path)))"
      "calls c' = calls c1 @ map (create_call rest_api_id (table (tree c')))
                              (missing (table (tree c1)) (plan [] (segments path)))"
      "methods c' = methods c1" "integrations c' = integrations c1"
      "rest_apis c' = rest_apis c1" "deployments c' = deployments c1"
      "\<forall>step \<in> set (plan [] (segments path)). table (tree c') (snd (snd step)) \<noteq> None"
    by auto
  have fetch: "fetch_resources (pages_of 500 (tree c)) = table (tree c)"
    using fetched_table [of c rest_api_id] by (simp add: fetched_def get_resources_def)
  have run: "ensure_path c rest_api_id path =
      (c', case table (tree c') path of Some i \<Rightarrow> Inr i | None \<Rightarrow> Inl (KeyError path))"
    using None c'(1)
    by (simp add: ensure_path_def get_resources_def fetch c1_def [symmetric] t1
        split: option.splits)
  show ?thesis
    using run c'(2-9) None
    by (intro exI [of _ c']) (simp add: t1 todo_def c1_def issue_def)
qed

subsection \<open>ensure\_path on a path that exists\<close>

text \<open>
  C3. When the path is a key of the fetched dictionary, \<open>ensure_path\<close> returns the id
  stored there. The client state it returns is the one it was given with the listing call
  added to the log: no \<open>create_resource\<close> call is made and the remote tree is untouched.
\<close>

theorem ensure_path_existing:
  "fetched client rest_api_id path = Some i \<Longrightarrow>
   ensure_path client rest_api_id path =
     (client\<lparr>calls := calls client @ [GetResources rest_api_id]\<rparr>, Inr i)"
  by (simp add: ensure_path_def fetched_def get_resources_def issue_def)

theorem ensure_path_existing_witness:
  "ensure_path example_gateway ''api1'' ''/'' =
     (example_gateway\<lparr>calls := [GetResources ''api1'']\<rparr>, Inr ''root'')"
proof -
  have h: "fetched example_gateway ''api1'' ''/'' = Some ''root''"
    by (simp add: fetched_def get_resources_def fetch_resources_def pages_of.simps
        example_gateway_def)
  show ?thesis
    using ensure_path_existing [OF h] by (simp add: example_gateway_def)
qed

subsection \<open>load\_paths and the order of main\<close>

text \<open>
  The part of the shape check that \<open>load_paths\<close> makes: a parsed content that is not
  an array raises the \<open>ValueError\<close>.
\<close>

lemma load_paths_not_array:
  "files config_path = Some (Some data) \<Longrightarrow> (\<forall>xs. data \<noteq> JArr xs) \<Longrightarrow>
   load_paths files config_path =
     Inl (ValueError ''config.json must be a JSON array of path strings'')"
  by (auto simp: load_paths_def split: json.splits)

text \<open>
  C5. The code does not do what the claim and its own error message say. The elements of
  the array are not checked: an array of a number, \<open>null\<close> and a string is loaded, each
  element turned into a string by \<open>str\<close>. On the array \<open>[null]\<close> the run of \<open>main\<close>
  does not end with a configuration error: it creates the resource \<open>/None\<close> in the
  gateway and then ends with \<open>KeyError\<close>, the path \<open>None\<close> having no leading slash.
\<close>

theorem load_paths_accepts_non_strings:
  "load_paths [''config.json'' \<mapsto> Some (JArr [JInt 7, JNull, JStr ''/users''])] ''config.json'' =
     Inr [''7'', ''None'', ''/users''] \<and>
   snd (main example_args example_null_world) = Inl (KeyError ''None'') \<and>
   map res_path (tree (apigw (fst (main example_args example_null_world)))) =
     [''/'', ''/None'']"
  by code_simp

text \<open>
  C4, as amended. When the configuration file holds a JSON object, \<open>main\<close> ends with an
  exception and nothing remote is changed: the tree, the methods, the integrations, the
  deployments and the permission statements are the ones it started from. The calls made
  are at most the three reads that come first in \<open>main\<close>.
\<close>

theorem main_config_object:
  assumes "file_system w (arg_config_path args) = Some (Some (JObj kvs))"
  shows "(\<exists>e. snd (main args w) = Inl e) \<and>
         tree (apigw (fst (main args w))) = tree (apigw w) \<and>
         methods (apigw (fst (main args w))) = methods (apigw w) \<and>
         integrations (apigw (fst (main args w))) = integrations (apigw w) \<and>
         deployments (apigw (fst (main args w))) = deployments (apigw w) \<and>
         statements (lambda_client (fst (main args w))) = statements (lambda_client w) \<and>
         new_calls (apigw w) (apigw (fst (main args w))) \<in> {[], [GetRestApis]} \<and>
         drop (length (lambda_calls (lambda_client w)))
           (lambda_calls (lambda_client (fst (main args w)))) \<in>
           {[], [GetFunction (arg_lambda_name_prefix args @ arg_module args)]}"
  using assms
  by (auto simp: main_def Let_def get_caller_identity_def find_rest_api_id_by_name_def
      get_rest_apis_def issue_def get_function_def load_paths_def new_calls_def
      split: option.splits sum.splits prod.splits)

theorem main_config_object_witness:
  "(\<exists>e. snd (main example_args example_world) = Inl e) \<and>
   tree (apigw (fst (main example_args example_world))) = tree example_gateway \<and>
   deployments (apigw (fst (main example_args example_world))) = []"
proof -
  have h: "file_system example_world (arg_config_path example_args) = Some (Some (JObj []))"
    by (simp add: example_world_def example_args_def)
  show ?thesis
    using main_config_object [OF h]
    by (simp add: example_world_def example_gateway_def)
qed

text \<open>
  C4 as stated fails: on a configuration file that holds the object \<open>{}\<close> the run ends
  with the \<open>ValueError\<close> of \<open>load_paths\<close> after one call to the identity service, one to
  the gateway and one to the handler registry.
\<close>

theorem main_config_object_counterexample:
  "snd (main example_args example_world) =
     Inl (ValueError ''config.json must be a JSON array of path strings'') \<and>
   calls (apigw (fst (main example_args example_world))) = [GetRestApis] \<and>
   lambda_calls (lambda_client (fst (main example_args example_world))) =
     [GetFunction ''project-users''] \<and>
   sts_calls (sts (fst (main example_args example_world))) = 1"
  by code_simp

subsection \<open>ensure\_method\_and\_integration\<close>

text \<open>
  C6. On a resource of the gateway, whatever methods and integrations exist, the call
  writes the integration once: the log gains one \<open>put_integration\<close>, of type
  \<open>AWS_PROXY\<close>, invoked by \<open>POST\<close>, for the upper-cased verb, and its URI is the template
  with the resolved region put in and the handler ARN inside.
\<close>

theorem put_integration_once:
  assumes "resource_id \<in> set (map res_id (tree client))"
  shows "filter is_put_integration
           (new_calls client
              (fst (ensure_method_and_integration client env rest_api_id resource_id
                      http_method lambda_arn))) =
         [PutIntegration rest_api_id resource_id (upper http_method) ''AWS_PROXY'' ''POST''
            (py_replace ''${AWS_REGION}'' (integration_region env)
               (''arn:aws:apigateway:${AWS_REGION}:lambda:path/2015-03-31/functions/'' @
                lambda_arn @ ''/invocations''))] \<and>
         snd (ensure_method_and_integration client env rest_api_id resource_id
                http_method lambda_arn) = Inr ()"
  using assms
  by (auto simp: ensure_method_and_integration_def get_method_def put_method_def
      get_integration_def put_integration_def issue_def new_calls_def integration_uri_def
      Let_def split: option.splits)

theorem put_integration_once_witness:
  "filter is_put_integration
     (new_calls example_gateway
        (fst (ensure_method_and_integration example_gateway example_env ''api1'' ''root''
                ''get'' example_arn))) =
   [PutIntegration ''api1'' ''root'' ''GET'' ''AWS_PROXY'' ''POST''
      ''arn:aws:apigateway:eu-west-1:lambda:path/2015-03-31/functions/arn:aws:lambda:eu-west-1:42:function:project-users/invocations'']"
proof -
  have h: "''root'' \<in> set (map res_id (tree example_gateway))"
    by (simp add: example_gateway_def)
  have u: "upper ''get'' = ''GET''"
    by code_simp
  have r: "py_replace ''${AWS_REGION}'' (integration_region example_env)
             (''arn:aws:apigateway:${AWS_REGION}:lambda:path/2015-03-31/functions/'' @
              example_arn @ ''/invocations'') =
           ''arn:aws:apigateway:eu-west-1:lambda:path/2015-03-31/functions/arn:aws:lambda:eu-west-1:42:function:project-users/invocations''"
    by code_simp
  show ?thesis
    using put_integration_once [OF h, of example_env "''api1''" "''get''" example_arn]
    by (simp only: u r)
qed

text \<open>
  C7. The first call is the probe \<open>get_method\<close> for the upper-cased verb. A
  \<open>put_method\<close> is issued exactly when the probe raises \<open>NotFoundException\<close>, and it asks
  for the authorization type \<open>NONE\<close>; when the probe finds the method, the methods of the
  gateway are left as they were.
\<close>

theorem put_method_iff_absent:
  "filter is_put_method
     (new_calls client
        (fst (ensure_method_and_integration client env rest_api_id resource_id http_method
                lambda_arn))) =
     (if snd (get_method client rest_api_id resource_id (upper http_method)) =
           Inl NotFoundException
      then [PutMethod rest_api_id resource_id (upper http_method) ''NONE''] else []) \<and>
   (snd (get_method client rest_api_id resource_id (upper http_method)) \<noteq>
      Inl NotFoundException \<longrightarrow>
    methods (fst (ensure_method_and_integration client env rest_api_id resource_id
                    http_method lambda_arn)) = methods client) \<and>
   take 1 (new_calls client
        (fst (ensure_method_and_integration client env rest_api_id resource_id http_method
                lambda_arn))) = [GetMethod rest_api_id resource_id (upper http_method)]"
  by (auto simp: ensure_method_and_integration_def get_method_def put_method_def
      get_integration_def put_integration_def issue_def new_calls_def
      Let_def split: option.splits)

theorem put_method_iff_absent_witness:
  "filter is_put_method
     (new_calls example_gateway
        (fst (ensure_method_and_integration example_gateway example_env ''api1'' ''root''
                ''get'' example_arn))) =
   [PutMethod ''api1'' ''root'' ''GET'' ''NONE'']"
proof -
  have u: "upper ''get'' = ''GET''"
    by code_simp
  have p: "snd (get_method example_gateway ''api1'' ''root'' ''GET'') = Inl NotFoundException"
    by (simp add: get_method_def example_gateway_def)
  show ?thesis
    using put_method_iff_absent [of example_gateway example_env "''api1''" "''root''" "''get''"
        example_arn]
    by (simp add: u p)
qed

lemma upper_char_idem: "upper_char (upper_char ch) = upper_char ch"
  by (auto simp: upper_char_def Let_def)

lemma upper_idem: "upper (upper s) = upper s"
  by (simp add: upper_def upper_char_idem)

text \<open>
  C10. The function gives the same result on a verb and on its upper-case form, and every
  call it adds to the log carries the upper-cased verb.
\<close>

theorem verb_upper_cased:
  "ensure_method_and_integration client env rest_api_id resource_id (upper http_method)
     lambda_arn =
   ensure_method_and_integration client env rest_api_id resource_id http_method lambda_arn \<and>
   (\<forall>call \<in> set (new_calls client
        (fst (ensure_method_and_integration client env rest_api_id resource_id http_method
                lambda_arn))). call_verb call = Some (upper http_method))"
proof
  show "ensure_method_and_integration client env rest_api_id resource_id (upper http_method)
     lambda_arn =
   ensure_method_and_integration client env rest_api_id resource_id http_method lambda_arn"
    by (simp add: ensure_method_and_integration_def upper_idem)
  show "\<forall>call \<in> set (new_calls client
        (fst (ensure_method_and_integration client env rest_api_id resource_id http_method
                lambda_arn))). call_verb call = Some (upper http_method)"
    by (auto simp: ensure_method_and_integration_def get_method_def put_method_def
        get_integration_def put_integration_def issue_def new_calls_def
        Let_def split: option.splits)
qed

theorem verb_upper_cased_witness:
  "ensure_method_and_integration example_gateway example_env ''api1'' ''root'' ''GET''
     example_arn =
   ensure_method_and_integration example_gateway example_env ''api1'' ''root'' ''get''
     example_arn"
proof -
  have u: "upper ''get'' = ''GET''"
    by code_simp
  show ?thesis
    using verb_upper_cased [of example_gateway example_env "''api1''" "''root''" "''get''"
        example_arn]
    by (simp only: u)
qed

text \<open>
  C9, as amended. The region is the first of these that is neither \<open>None\<close> nor empty: the
  region of the session, \<open>AWS_REGION\<close>, \<open>AWS_DEFAULT_REGION\<close>, the region of the \<open>sts\<close>
  client; \<open>us-east-1\<close> when there is none.
\<close>

theorem region_order:
  "integration_region env =
     py_or_str (session_region env)
       (py_or_str (environ env ''AWS_REGION'')
          (py_or_str (environ env ''AWS_DEFAULT_REGION'')
             (py_or_str (sts_region env) ''us-east-1'')))"
  by (auto simp: integration_region_def py_or_def truthy_def py_or_str_def split: option.splits)

text \<open>
  C9 as stated fails: with no session region and no variable set, the region is the one of
  the \<open>sts\<close> client, not the default written in the code.
\<close>

theorem region_order_counterexample:
  "integration_region
     \<lparr>session_region = None, environ = Map.empty, sts_region = Some ''aws-global''\<rparr> =
   ''aws-global''"
  by (simp add: integration_region_def py_or_def truthy_def py_or_str_def)

subsection \<open>add\_permission\_for\_apigw\<close>

text \<open>
  C8. The one call made is \<open>add_permission\<close> with the statement id \<open>apigw-\<close>, the gateway
  id, \<open>-\<close> and the function name cut from the ARN: a function of these two alone. When
  that call raises \<open>ResourceConflictException\<close> the function returns normally and the
  statements are unchanged; any other exception of the call is the result.
\<close>

theorem add_permission_for_apigw_spec:
  "lambda_calls (fst (add_permission_for_apigw l lambda_arn rest_api_id account_id region)) =
     lambda_calls l @
     [AddPermission lambda_arn
        (''apigw-'' @ rest_api_id @ ''-'' @ last (py_split '':function:'' lambda_arn))
        ''lambda:InvokeFunction'' ''apigateway.amazonaws.com''
        (''arn:aws:execute-api:'' @ region @ '':'' @ account_id @ '':'' @ rest_api_id @
         ''/*/*/*'')] \<and>
   (\<forall>e. snd (add_permission l lambda_arn
              (statement_id rest_api_id (last (py_split '':function:'' lambda_arn)))
              ''lambda:InvokeFunction'' ''apigateway.amazonaws.com''
              (''arn:aws:execute-api:'' @ region @ '':'' @ account_id @ '':'' @ rest_api_id @
               ''/*/*/*'')) = Inl e \<longrightarrow>
        (if e = ResourceConflictException
         then snd (add_permission_for_apigw l lambda_arn rest_api_id account_id region) = Inr () \<and>
              statements (fst (add_permission_for_apigw l lambda_arn rest_api_id account_id
                                 region)) = statements l
         else snd (add_permission_for_apigw l lambda_arn rest_api_id account_id region) = Inl e))"
  by (auto simp: add_permission_for_apigw_def add_permission_def statement_id_def Let_def
      split: option.splits if_splits)

theorem add_permission_for_apigw_spec_witness:
  "snd (add_permission_for_apigw example_granted example_arn ''api1'' ''42'' ''eu-west-1'') =
     Inr () \<and>
   statements (fst (add_permission_for_apigw example_granted example_arn ''api1'' ''42''
                      ''eu-west-1'')) = statements example_granted"
proof -
  have h: "snd (add_permission example_granted example_arn
              (statement_id ''api1'' (last (py_split '':function:'' example_arn)))
              ''lambda:InvokeFunction'' ''apigateway.amazonaws.com''
              (''arn:aws:execute-api:'' @ ''eu-west-1'' @ '':'' @ ''42'' @ '':'' @ ''api1'' @
               ''/*/*/*'')) = Inl ResourceConflictException"
    by code_simp
  show ?thesis
    using add_permission_for_apigw_spec [of example_granted example_arn "''api1''" "''42''"
        "''eu-west-1''"] h
    by simp
qed

subsection \<open>Tree completeness\<close>

lemma py_split_not_Nil: "py_split sep s \<noteq> []"
  by (subst py_split.simps) (simp split: list.splits)

lemma py_join_Cons: "ws \<noteq> [] \<Longrightarrow> py_join sep (w # ws) = w @ sep @ py_join sep ws"
  by (cases ws) simp_all

lemma py_join_split: "sep \<noteq> [] \<Longrightarrow> py_join sep (py_split sep s) = s"
proof (induction sep s rule: py_split.induct)
  case (1 sep s)
  show ?case
  proof (cases "s = []")
    case True
    then show ?thesis
      using "1.prems" by (subst py_split.simps) simp
  next
    case False
    show ?thesis
    proof (cases "prefix sep s")
      case True
      then have s: "s = sep @ drop (length sep) s"
        by (metis append_eq_conv_conj prefixE)
      have "py_split sep s = [] # py_split sep (drop (length sep) s)"
        using "1.prems" False True by (subst py_split.simps) simp
      then have "py_join sep (py_split sep s) = sep @ py_join sep (py_split sep (drop (length sep) s))"
        by (simp add: py_join_Cons py_split_not_Nil)
      also have "\<dots> = sep @ drop (length sep) s"
        using "1.IH"(1) "1.prems" False True by simp
      finally show ?thesis
        using s by simp
    next
      case np: False
      obtain w ws where w: "py_split sep (tl s) = w # ws"
        using py_split_not_Nil [of sep "tl s"] by (cases "py_split sep (tl s)") auto
      have "py_split sep s = (hd s # w) # ws"
        using "1.prems" False np w by (subst py_split.simps) simp
      then have "py_join sep (py_split sep s) = hd s # py_join sep (w # ws)"
        by (cases ws) simp_all
      also have "\<dots> = hd s # tl s"
        using "1.IH"(2) "1.prems" False np w by simp
      finally show ?thesis
        using False by simp
    qed
  qed
qed

lemma segments_slash:
  assumes "[] \<notin> set (py_split ''/'' tail)"
  shows "segments (''/'' @ tail) = py_split ''/'' tail"
proof -
  have "py_split ''/'' (''/'' @ tail) = [] # py_split ''/'' tail"
    by (subst py_split.simps) simp
  moreover have "filter (\<lambda>seg. seg \<noteq> []) (py_split ''/'' tail) = py_split ''/'' tail"
    using assms by (auto simp: filter_id_conv)
  ultimately show ?thesis
    by (simp add: segments_def)
qed

lemma last_plan:
  "segs \<noteq> [] \<Longrightarrow>
   snd (snd (last (plan built segs))) =
     (if built = [] then ''/'' @ py_join ''/'' segs else built @ ''/'' @ py_join ''/'' segs)"
proof (induction segs arbitrary: built)
  case Nil
  then show ?case by simp
next
  case (Cons s segs)
  show ?case
  proof (cases segs)
    case Nil
    then show ?thesis by (simp add: extend_path_def)
  next
    case (Cons t ts)
    then have "snd (snd (last (plan built (s # segs)))) =
        snd (snd (last (plan (extend_path built s) segs)))"
      by simp
    also have "\<dots> = extend_path built s @ ''/'' @ py_join ''/'' segs"
      using Cons.IH [of "extend_path built s"] Cons by (simp add: extend_path_not_Nil)
    finally show ?thesis
      using Cons by (simp add: extend_path_def)
  qed
qed

lemma plan_Nil_iff: "(plan built segs = []) = (segs = [])"
  by (cases segs) simp_all

lemma path_in_plan:
  assumes "[] \<notin> set (py_split ''/'' tail)"
  shows "\<exists>step \<in> set (plan [] (segments (''/'' @ tail))). snd (snd step) = ''/'' @ tail"
proof -
  let ?segs = "py_split ''/'' tail"
  have ne: "?segs \<noteq> []"
    by (rule py_split_not_Nil)
  then have "plan [] ?segs \<noteq> []"
    by (simp add: plan_Nil_iff)
  then have "last (plan [] ?segs) \<in> set (plan [] ?segs)"
    by simp
  moreover have "snd (snd (last (plan [] ?segs))) = ''/'' @ tail"
    using last_plan [OF ne, of "[]"] py_join_split [of "''/''" tail] by simp
  ultimately show ?thesis
    using segments_slash [OF assms] by auto
qed

lemma missing_Nil_iff: "(missing m steps = []) = (\<forall>step \<in> set steps. m (snd (snd step)) \<noteq> None)"
  by (auto simp: missing_def filter_empty_conv)

lemma prefix_closed_present:
  assumes "prefix_closed c" and "table (tree c) path \<noteq> None"
  shows "\<forall>step \<in> set (plan [] (segments path)). table (tree c) (snd (snd step)) \<noteq> None"
proof
  fix step
  assume step: "step \<in> set (plan [] (segments path))"
  from assms(2) obtain i where "table (tree c) path = Some i"
    by auto
  then obtain r where r: "r \<in> set (tree c)" "res_path r = path"
    using table_Some by blast
  then have "snd (snd step) \<in> set (map res_path (tree c))"
    using assms(1) step unfolding prefix_closed_def by blast
  then have "snd (snd step) \<in> dom (table (tree c))"
    by (simp add: dom_table)
  then show "table (tree c) (snd (snd step)) \<noteq> None"
    by auto
qed

text \<open>
  C2. On a gateway tree (distinct ids, closed under partial paths) whose fetched
  dictionary has the root, and for a path that is \<open>/\<close> followed by segments none of
  which is empty: \<open>ensure_path\<close> returns the id the final tree lists for the path; every
  partial path of the path is listed in the final tree; the resources added are those of
  the missing steps, in the order of the steps, so a parent comes before its child; and
  after the listing call the calls made are the \<open>create_resource\<close> calls of the missing
  steps in that order, each with the id of the path one segment shorter as \<open>parentId\<close>.
\<close>

theorem ensure_path_completes:
  assumes ids: "distinct (map res_id (tree c))"
    and closed: "prefix_closed c"
    and root: "fetched c rest_api_id ''/'' \<noteq> None"
    and path: "path = ''/'' @ tail"
    and segs: "[] \<notin> set (py_split ''/'' tail)"
  shows "(\<exists>i. snd (ensure_path c rest_api_id path) = Inr i \<and>
              fetched (fst (ensure_path c rest_api_id path)) rest_api_id path = Some i) \<and>
         (\<forall>step \<in> set (plan [] (segments path)).
            fetched (fst (ensure_path c rest_api_id path)) rest_api_id (snd (snd step)) \<noteq> None) \<and>
         tree (fst (ensure_path c rest_api_id path)) =
           tree c @ map (created_resource (fetched (fst (ensure_path c rest_api_id path)) rest_api_id))
                      (missing (fetched c rest_api_id) (plan [] (segments path))) \<and>
         new_calls c (fst (ensure_path c rest_api_id path)) =
           GetResources rest_api_id #
           map (create_call rest_api_id (fetched (fst (ensure_path c rest_api_id path)) rest_api_id))
             (missing (fetched c rest_api_id) (plan [] (segments path)))"
proof -
  have root': "table (tree c) ''/'' \<noteq> None"
    using root by (simp add: fetched_table)
  from ensure_path_spec [OF ids root', of rest_api_id path]
  obtain c' where c':
    "ensure_path c rest_api_id path =
       (c', case table (tree c') path of Some i \<Rightarrow> Inr i | None \<Rightarrow> Inl (KeyError path))"
    "tree c' = tree c @ map (created_resource (table (tree c'))) (todo (table (tree c)) path)"
    "calls c' = calls c @ GetResources rest_api_id #
        map (create_call rest_api_id (table (tree c'))) (todo (table (tree c)) path)"
    "table (tree c) path \<noteq> None \<or>
       (\<forall>step \<in> set (plan [] (segments path)). table (tree c') (snd (snd step)) \<noteq> None)"
    by blast
  have todo_eq: "todo (table (tree c)) path = missing (table (tree c)) (plan [] (segments path))"
  proof (cases "table (tree c) path")
    case None
    then show ?thesis by (simp add: todo_def)
  next
    case (Some i)
    then have "missing (table (tree c)) (plan [] (segments path)) = []"
      using prefix_closed_present [OF closed, of path] by (simp add: missing_Nil_iff)
    then show ?thesis
      using Some by (simp add: todo_def)
  qed
  have all: "\<forall>step \<in> set (plan [] (segments path)). table (tree c') (snd (snd step)) \<noteq> None"
  proof (cases "table (tree c) path")
    case None
    then show ?thesis using c'(4) by simp
  next
    case (Some i)
    then have "todo (table (tree c)) path = []"
      by (simp add: todo_def)
    then have "tree c' = tree c"
      using c'(2) by simp
    then show ?thesis
      using prefix_closed_present [OF closed, of path] Some by simp
  qed
  from path_in_plan [OF segs] obtain step where
    "step \<in> set (plan [] (segments path))" "snd (snd step) = path"
    using path by auto
  then have "table (tree c') path \<noteq> None"
    using all by auto
  then obtain i where i: "table (tree c') path = Some i"
    by auto
  have fst_eq: "fst (ensure_path c rest_api_id path) = c'"
    and snd_eq: "snd (ensure_path c rest_api_id path) = Inr i"
    using c'(1) i by simp_all
  show ?thesis
    unfolding fst_eq snd_eq fetched_table
    using i all c'(2,3) by (simp add: todo_eq new_calls_def)
qed

theorem ensure_path_completes_witness:
  "new_calls example_gateway (fst (ensure_path example_gateway ''api1'' ''/orders/{id}'')) =
     [GetResources ''api1'', CreateResource ''api1'' (Some ''root'') ''orders'',
      CreateResource ''api1'' (Some ''rrrrr'') ''{id}''] \<and>
   map res_path (tree (fst (ensure_path example_gateway ''api1'' ''/orders/{id}''))) =
     [''/'', ''/orders'', ''/orders/{id}'']"
proof -
  have ids: "distinct (map res_id (tree example_gateway))"
    by (simp add: example_gateway_def)
  have closed: "prefix_closed example_gateway"
    by code_simp
  have root: "fetched example_gateway ''api1'' ''/'' \<noteq> None"
    by code_simp
  have path: "''/orders/{id}'' = ''/'' @ ''orders/{id}''"
    by simp
  have segs: "[] \<notin> set (py_split ''/'' ''orders/{id}'')"
    by code_simp
  have l: "GetResources ''api1'' #
           map (create_call ''api1''
                  (fetched (fst (ensure_path example_gateway ''api1'' ''/orders/{id}'')) ''api1''))
             (missing (fetched example_gateway ''api1'') (plan [] (segments ''/orders/{id}''))) =
           [GetResources ''api1'', CreateResource ''api1'' (Some ''root'') ''orders'',
            CreateResource ''api1'' (Some ''rrrrr'') ''{id}'']"
    by code_simp
  have t: "map res_path (tree example_gateway @
             map (created_resource
                    (fetched (fst (ensure_path example_gateway ''api1'' ''/orders/{id}'')) ''api1''))
               (missing (fetched example_gateway ''api1'') (plan [] (segments ''/orders/{id}'')))) =
           [''/'', ''/orders'', ''/orders/{id}'']"
    by code_simp
  show ?thesis
    using ensure_path_completes [OF ids closed root path segs] l t by simp
qed

subsection \<open>Idempotence of the reconciliation\<close>

lemma quiet_Nil: "quiet []"
  by (simp add: quiet_def)

lemma quiet_append: "quiet (xs @ ys) = (quiet xs \<and> quiet ys)"
  unfolding quiet_def filter_append append_is_Nil_conv by blast

lemma quiet_Cons: "quiet (x # xs) = (\<not> is_create_resource x \<and> \<not> is_put_method x \<and> quiet xs)"
  unfolding quiet_def by (cases "is_create_resource x"; cases "is_put_method x") simp_all

lemma growsI:
  assumes "tree c' = tree c @ news"
    and "\<And>r. r \<in> set news \<Longrightarrow> table (tree c) (res_path r) = None"
    and "\<And>k. methods c k \<noteq> None \<Longrightarrow> methods c' k \<noteq> None"
  shows "grows c c'"
  unfolding grows_def using assms by blast

lemma grows_refl: "grows c c"
  by (simp add: grows_def)

lemma grows_table:
  assumes "grows c c'" and "table (tree c) p = Some i"
  shows "table (tree c') p = Some i"
proof -
  from assms(1) obtain news where news: "tree c' = tree c @ news"
    "\<forall>r \<in> set news. table (tree c) (res_path r) = None"
    by (auto simp: grows_def)
  have "p \<notin> res_path ` set news"
    using news(2) assms(2) by auto
  then show ?thesis
    using assms(2) by (simp add: news(1) table_append_new)
qed

lemma grows_trans:
  assumes "grows a b" and "grows b c"
  shows "grows a c"
proof -
  from assms(1) obtain n1 where n1: "tree b = tree a @ n1"
    "\<forall>r \<in> set n1. table (tree a) (res_path r) = None"
    by (auto simp: grows_def)
  from assms(2) obtain n2 where n2: "tree c = tree b @ n2"
    "\<forall>r \<in> set n2. table (tree b) (res_path r) = None"
    by (auto simp: grows_def)
  have "table (tree a) (res_path r) = None" if "r \<in> set n2" for r
  proof (cases "table (tree a) (res_path r)")
    case None
    then show ?thesis .
  next
    case (Some i)
    then have "table (tree b) (res_path r) = Some i"
      using grows_table [OF assms(1)] by simp
    then show ?thesis
      using n2(2) that by simp
  qed
  then have "tree c = tree a @ (n1 @ n2) \<and>
      (\<forall>r \<in> set (n1 @ n2). table (tree a) (res_path r) = None)"
    using n1 n2(1) by auto
  moreover have "\<forall>k. methods a k \<noteq> None \<longrightarrow> methods c k \<noteq> None"
    using assms by (simp add: grows_def)
  ultimately show ?thesis
    unfolding grows_def by blast
qed

lemma grows_done:
  assumes "grows c c'" and "done_path c p"
  shows "done_path c' p"
proof -
  from assms(2) obtain i where i: "table (tree c) p = Some i"
    "\<forall>v \<in> set fixed_methods. methods c (i, upper v) \<noteq> None"
    unfolding done_path_def by blast
  have "table (tree c') p = Some i"
    using grows_table [OF assms(1) i(1)] .
  moreover have "\<forall>v \<in> set fixed_methods. methods c' (i, upper v) \<noteq> None"
    using i(2) assms(1) unfolding grows_def by blast
  ultimately show ?thesis
    unfolding done_path_def by blast
qed

lemma settled_cong:
  "tree c' = tree c \<Longrightarrow> methods c' = methods c \<Longrightarrow> settled c' paths = settled c paths"
  by (induction paths) (simp_all add: stuck_path_def done_path_def)

lemma stuck_cong: "tree c' = tree c \<Longrightarrow> stuck_path c' p = stuck_path c p"
  by (simp add: stuck_path_def)

lemma verdict_cong:
  assumes "tree c' = tree c"
  shows "verdict c' paths = verdict c paths"
proof (induction paths)
  case Nil
  then show ?case by simp
next
  case (Cons p paths)
  then show ?case
    using stuck_cong [OF assms, of p] by simp
qed

lemma done_not_stuck: "done_path c p \<Longrightarrow> \<not> stuck_path c p"
  by (auto simp: done_path_def stuck_path_def)

text \<open>The loop creates nothing when every partial path is in the dictionary.\<close>

lemma walk_present:
  "\<forall>step \<in> set (plan built segs). m (snd (snd step)) \<noteq> None \<Longrightarrow>
   walk c rest_api_id m parent built segs = (c, Inr m)"
  by (induction segs arbitrary: built parent) auto

lemma ensure_path_stuck:
  assumes "stuck_path c path"
  shows "ensure_path c rest_api_id path =
           (issue (GetResources rest_api_id) c, Inl (KeyError path))"
proof -
  have fetch: "fetch_resources (pages_of 500 (tree c)) = table (tree c)"
    using fetched_table [of c rest_api_id] by (simp add: fetched_def get_resources_def)
  have "walk (issue (GetResources rest_api_id) c) rest_api_id (table (tree c))
          (table (tree c) ''/'') [] (segments path) =
        (issue (GetResources rest_api_id) c, Inr (table (tree c)))"
    using assms by (intro walk_present) (simp add: stuck_path_def)
  then show ?thesis
    using assms by (simp add: ensure_path_def get_resources_def fetch stuck_path_def)
qed

lemma ensure_path_present:
  assumes "table (tree c) path = Some i"
  shows "ensure_path c rest_api_id path = (issue (GetResources rest_api_id) c, Inr i)"
  using assms fetched_table [of c rest_api_id]
  by (simp add: ensure_path_def fetched_def get_resources_def)

lemma emi_present_calls:
  assumes "methods c (resource_id, upper http_method) \<noteq> None"
  shows "\<exists>c'. ensure_method_and_integration c env rest_api_id resource_id http_method
                 lambda_arn = (c', Inr ()) \<and>
           tree c' = tree c \<and> methods c' = methods c \<and>
           calls c' = calls c @
             [GetMethod rest_api_id resource_id (upper http_method),
              GetIntegration rest_api_id resource_id (upper http_method),
              PutIntegration rest_api_id resource_id (upper http_method) ''AWS_PROXY'' ''POST''
                (integration_uri env lambda_arn)]"
  using assms
  by (auto simp: ensure_method_and_integration_def get_method_def get_integration_def
      put_integration_def issue_def Let_def split: option.splits)

lemma emi_present:
  assumes "methods c (resource_id, upper http_method) \<noteq> None"
  shows "\<exists>c' xs. ensure_method_and_integration c env rest_api_id resource_id http_method
                    lambda_arn = (c', Inr ()) \<and>
           tree c' = tree c \<and> methods c' = methods c \<and> calls c' = calls c @ xs \<and> quiet xs"
proof -
  from emi_present_calls [OF assms, of env rest_api_id lambda_arn]
  obtain c' where c': "ensure_method_and_integration c env rest_api_id resource_id http_method
                 lambda_arn = (c', Inr ())" "tree c' = tree c" "methods c' = methods c"
           "calls c' = calls c @
             [GetMethod rest_api_id resource_id (upper http_method),
              GetIntegration rest_api_id resource_id (upper http_method),
              PutIntegration rest_api_id resource_id (upper http_method) ''AWS_PROXY'' ''POST''
                (integration_uri env lambda_arn)]"
    by blast
  have "quiet [GetMethod rest_api_id resource_id (upper http_method),
              GetIntegration rest_api_id resource_id (upper http_method),
              PutIntegration rest_api_id resource_id (upper http_method) ''AWS_PROXY'' ''POST''
                (integration_uri env lambda_arn)]"
    by (simp add: quiet_def)
  with c' show ?thesis
    by (intro exI [of _ c'] exI [of _ "[GetMethod rest_api_id resource_id (upper http_method),
              GetIntegration rest_api_id resource_id (upper http_method),
              PutIntegration rest_api_id resource_id (upper http_method) ''AWS_PROXY'' ''POST''
                (integration_uri env lambda_arn)]"]) simp
qed

lemma ensure_methods_present:
  assumes "\<forall>v \<in> set vs. methods c (resource_id, upper v) \<noteq> None"
  shows "\<exists>c' xs. ensure_methods c env rest_api_id resource_id lambda_arn vs = (c', Inr ()) \<and>
           tree c' = tree c \<and> methods c' = methods c \<and> calls c' = calls c @ xs \<and> quiet xs"
  using assms
proof (induction vs arbitrary: c)
  case Nil
  then show ?case by (simp add: quiet_Nil)
next
  case (Cons v vs)
  then have "methods c (resource_id, upper v) \<noteq> None"
    by simp
  from emi_present [OF this, of env rest_api_id lambda_arn]
  obtain c1 xs where c1:
    "ensure_method_and_integration c env rest_api_id resource_id v lambda_arn = (c1, Inr ())"
    "tree c1 = tree c" "methods c1 = methods c" "calls c1 = calls c @ xs" "quiet xs"
    by blast
  have "\<forall>v \<in> set vs. methods c1 (resource_id, upper v) \<noteq> None"
    using Cons.prems c1(3) by simp
  from Cons.IH [OF this]
  obtain c2 ys where c2:
    "ensure_methods c1 env rest_api_id resource_id lambda_arn vs = (c2, Inr ())"
    "tree c2 = tree c1" "methods c2 = methods c1" "calls c2 = calls c1 @ ys" "quiet ys"
    by blast
  show ?case
    using c1 c2 by (intro exI [of _ c2] exI [of _ "xs @ ys"]) (simp add: quiet_append)
qed

lemma sync_paths_settled:
  assumes "settled c paths"
  shows "\<exists>c' xs. sync_paths c env rest_api_id lambda_arn paths = (c', verdict c paths) \<and>
           tree c' = tree c \<and> methods c' = methods c \<and> calls c' = calls c @ xs \<and> quiet xs"
  using assms
proof (induction paths arbitrary: c)
  case Nil
  then show ?case by (simp add: quiet_Nil)
next
  case (Cons p paths)
  show ?case
  proof (cases "stuck_path c p")
    case True
    have "quiet [GetResources rest_api_id]"
      by (simp add: quiet_def)
    with True show ?thesis
      by (intro exI [of _ "issue (GetResources rest_api_id) c"]
          exI [of _ "[GetResources rest_api_id]"]) (simp add: ensure_path_stuck issue_def)
  next
    case False
    with Cons.prems have d: "done_path c p" and s: "settled c paths"
      by auto
    from d obtain i where i: "table (tree c) p = Some i"
      "\<forall>v \<in> set fixed_methods. methods c (i, upper v) \<noteq> None"
      by (auto simp: done_path_def)
    define c1 where "c1 = issue (GetResources rest_api_id) c"
    have e: "ensure_path c rest_api_id p = (c1, Inr i)"
      using i(1) by (simp add: ensure_path_present c1_def)
    have "\<forall>v \<in> set fixed_methods. methods c1 (i, upper v) \<noteq> None"
      using i(2) by (simp add: c1_def issue_def)
    from ensure_methods_present [OF this, of env rest_api_id lambda_arn]
    obtain c2 xs where c2:
      "ensure_methods c1 env rest_api_id i lambda_arn fixed_methods = (c2, Inr ())"
      "tree c2 = tree c1" "methods c2 = methods c1" "calls c2 = calls c1 @ xs" "quiet xs"
      by blast
    have same: "tree c2 = tree c" "methods c2 = methods c"
      using c2(2,3) by (simp_all add: c1_def issue_def)
    then have "settled c2 paths"
      using s settled_cong [of c2 c paths] by simp
    from Cons.IH [OF this]
    obtain c3 ys where c3:
      "sync_paths c2 env rest_api_id lambda_arn paths = (c3, verdict c2 paths)"
      "tree c3 = tree c2" "methods c3 = methods c2" "calls c3 = calls c2 @ ys" "quiet ys"
      by blast
    have "verdict c2 paths = verdict c (p # paths)"
      using False verdict_cong [OF same(1), of paths] by simp
    then have "sync_paths c env rest_api_id lambda_arn (p # paths) = (c3, verdict c (p # paths))"
      using e c2(1) c3(1) by simp
    moreover have "calls c3 = calls c @ (GetResources rest_api_id # xs @ ys)"
      using c3(4) c2(4) by (simp add: c1_def issue_def)
    moreover have "quiet (GetResources rest_api_id # xs @ ys)"
      using c2(5) c3(5) by (simp add: quiet_Cons quiet_append)
    ultimately show ?thesis
      using c3(2,3) same
      by (intro exI [of _ c3] exI [of _ "GetResources rest_api_id # xs @ ys"]) simp
  qed
qed

lemma well_formed_table:
  "well_formed c = (distinct (map res_id (tree c)) \<and> table (tree c) ''/'' \<noteq> None)"
proof -
  have "(''/'' \<in> set (map res_path (tree c))) = (''/'' \<in> dom (table (tree c)))"
    by (simp add: dom_table)
  then show ?thesis
    by (auto simp: well_formed_def)
qed

lemma ensure_path_step:
  assumes "well_formed c"
  shows "\<exists>c' r. ensure_path c rest_api_id p = (c', r) \<and> well_formed c' \<and> grows c c' \<and>
           (case r of Inr i \<Rightarrow> table (tree c') p = Some i
            | Inl e \<Rightarrow> e = KeyError p \<and> stuck_path c' p)"
proof -
  from assms have ids: "distinct (map res_id (tree c))" and root: "table (tree c) ''/'' \<noteq> None"
    by (simp_all add: well_formed_table)
  from ensure_path_spec [OF ids root, of rest_api_id p]
  obtain c' where c':
    "ensure_path c rest_api_id p =
       (c', case table (tree c') p of Some i \<Rightarrow> Inr i | None \<Rightarrow> Inl (KeyError p))"
    "distinct (map res_id (tree c'))"
    "tree c' = tree c @ map (created_resource (table (tree c'))) (todo (table (tree c)) p)"
    "methods c' = methods c"
    "table (tree c) p \<noteq> None \<or>
       (\<forall>step \<in> set (plan [] (segments p)). table (tree c') (snd (snd step)) \<noteq> None)"
    by blast
  have new: "table (tree c) (res_path r) = None"
    if "r \<in> set (map (created_resource (table (tree c'))) (todo (table (tree c)) p))" for r
  proof (cases "table (tree c) p")
    case None
    then have "todo (table (tree c)) p = missing (table (tree c)) (plan [] (segments p))"
      by (simp add: todo_def)
    then show ?thesis
      using that missing_paths [of r "table (tree c')" "table (tree c)" "plan [] (segments p)"]
      by simp
  next
    case (Some i)
    then have "todo (table (tree c)) p = []"
      by (simp add: todo_def)
    then show ?thesis
      using that by simp
  qed
  have g: "grows c c'"
  proof (rule growsI [OF c'(3)])
    show "table (tree c) (res_path r) = None"
      if "r \<in> set (map (created_resource (table (tree c'))) (todo (table (tree c)) p))" for r
      using new [OF that] .
    show "methods c' k \<noteq> None" if "methods c k \<noteq> None" for k
      using that by (simp add: c'(4))
  qed
  have "table (tree c') ''/'' \<noteq> None"
    using root grows_table [OF g] by fastforce
  then have wf: "well_formed c'"
    using c'(2) by (simp add: well_formed_table)
  show ?thesis
  proof (cases "table (tree c') p")
    case None
    then have "table (tree c) p = None"
      using grows_table [OF g, of p] by (cases "table (tree c) p") auto
    then have "stuck_path c' p"
      using None c'(5) by (simp add: stuck_path_def)
    then show ?thesis
      using c'(1) None wf g by simp
  next
    case (Some i)
    then show ?thesis
      using c'(1) wf g by simp
  qed
qed

lemma emi_step:
  assumes "resource_id \<in> set (map res_id (tree c))"
  shows "\<exists>c'. ensure_method_and_integration c env rest_api_id resource_id http_method
                 lambda_arn = (c', Inr ()) \<and>
           tree c' = tree c \<and> methods c' (resource_id, upper http_method) \<noteq> None \<and>
           (\<forall>k. methods c k \<noteq> None \<longrightarrow> methods c' k \<noteq> None)"
  using assms
  by (auto simp: ensure_method_and_integration_def get_method_def put_method_def
      get_integration_def put_integration_def issue_def Let_def split: option.splits)

lemma ensure_methods_step:
  assumes "resource_id \<in> set (map res_id (tree c))"
  shows "\<exists>c'. ensure_methods c env rest_api_id resource_id lambda_arn vs = (c', Inr ()) \<and>
           tree c' = tree c \<and> (\<forall>v \<in> set vs. methods c' (resource_id, upper v) \<noteq> None) \<and>
           (\<forall>k. methods c k \<noteq> None \<longrightarrow> methods c' k \<noteq> None)"
  using assms
proof (induction vs arbitrary: c)
  case Nil
  then show ?case by simp
next
  case (Cons v vs)
  from emi_step [OF Cons.prems, of env rest_api_id v lambda_arn]
  obtain c1 where c1:
    "ensure_method_and_integration c env rest_api_id resource_id v lambda_arn = (c1, Inr ())"
    "tree c1 = tree c" "methods c1 (resource_id, upper v) \<noteq> None"
    "\<forall>k. methods c k \<noteq> None \<longrightarrow> methods c1 k \<noteq> None"
    by blast
  have "resource_id \<in> set (map res_id (tree c1))"
    using Cons.prems c1(2) by simp
  from Cons.IH [OF this]
  obtain c2 where c2:
    "ensure_methods c1 env rest_api_id resource_id lambda_arn vs = (c2, Inr ())"
    "tree c2 = tree c1" "\<forall>v \<in> set vs. methods c2 (resource_id, upper v) \<noteq> None"
    "\<forall>k. methods c1 k \<noteq> None \<longrightarrow> methods c2 k \<noteq> None"
    by blast
  have "ensure_methods c env rest_api_id resource_id lambda_arn (v # vs) = (c2, Inr ())"
    using c1(1) c2(1) by simp
  moreover have "tree c2 = tree c"
    using c1(2) c2(2) by simp
  moreover have "\<forall>u \<in> set (v # vs). methods c2 (resource_id, upper u) \<noteq> None"
    using c1(3) c2(3,4) by simp
  moreover have "\<forall>k. methods c k \<noteq> None \<longrightarrow> methods c2 k \<noteq> None"
    using c1(4) c2(4) by simp
  ultimately show ?case
    by (intro exI [of _ c2]) simp
qed

lemma sync_paths_first:
  assumes "well_formed c"
  shows "\<exists>c1. sync_paths c env rest_api_id lambda_arn paths = (c1, verdict c1 paths) \<and>
           well_formed c1 \<and> grows c c1 \<and> settled c1 paths"
  using assms
proof (induction paths arbitrary: c)
  case Nil
  then show ?case by (simp add: grows_refl)
next
  case (Cons p paths)
  from ensure_path_step [OF Cons.prems, of rest_api_id p]
  obtain ca r where ca: "ensure_path c rest_api_id p = (ca, r)" "well_formed ca" "grows c ca"
    "case r of Inr i \<Rightarrow> table (tree ca) p = Some i | Inl e \<Rightarrow> e = KeyError p \<and> stuck_path ca p"
    by blast
  show ?case
  proof (cases r)
    case (Inl e)
    then have "e = KeyError p" "stuck_path ca p"
      using ca(4) by simp_all
    then show ?thesis
      using ca(1-3) Inl by (intro exI [of _ ca]) simp
  next
    case (Inr i)
    then have i: "table (tree ca) p = Some i"
      using ca(4) by simp
    then have "i \<in> set (map res_id (tree ca))"
      using table_Some by fastforce
    from ensure_methods_step [OF this, of env rest_api_id lambda_arn fixed_methods]
    obtain cb where cb:
      "ensure_methods ca env rest_api_id i lambda_arn fixed_methods = (cb, Inr ())"
      "tree cb = tree ca"
      "\<forall>v \<in> set fixed_methods. methods cb (i, upper v) \<noteq> None"
      "\<forall>k. methods ca k \<noteq> None \<longrightarrow> methods cb k \<noteq> None"
      by blast
    have wfb: "well_formed cb"
      using ca(2) cb(2) by (simp add: well_formed_def)
    have gab: "grows ca cb"
      using cb(2,4) by (simp add: grows_def)
    have db: "done_path cb p"
      using i cb(2,3) unfolding done_path_def by auto
    from Cons.IH [OF wfb]
    obtain c1 where c1: "sync_paths cb env rest_api_id lambda_arn paths = (c1, verdict c1 paths)"
      "well_formed c1" "grows cb c1" "settled c1 paths"
      by blast
    have d1: "done_path c1 p"
      using grows_done [OF c1(3) db] .
    have "sync_paths c env rest_api_id lambda_arn (p # paths) = (c1, verdict c1 (p # paths))"
      using ca(1) Inr cb(1) c1(1) done_not_stuck [OF d1] by simp
    moreover have "grows c c1"
      using grows_trans [OF ca(3) grows_trans [OF gab c1(3)]] .
    moreover have "settled c1 (p # paths)"
      using d1 c1(4) by simp
    ultimately show ?thesis
      using c1(2) by (intro exI [of _ c1]) simp
  qed
qed

lemma sync_paths_twice:
  assumes "well_formed c0"
  shows "\<exists>c1 c2 r xs. sync_paths c0 env rest_api_id lambda_arn paths = (c1, r) \<and>
           sync_paths c1 env rest_api_id lambda_arn paths = (c2, r) \<and>
           tree c2 = tree c1 \<and> methods c2 = methods c1 \<and> calls c2 = calls c1 @ xs \<and> quiet xs"
proof -
  from sync_paths_first [OF assms, of env rest_api_id lambda_arn paths]
  obtain c1 where c1: "sync_paths c0 env rest_api_id lambda_arn paths = (c1, verdict c1 paths)"
    "settled c1 paths"
    by blast
  from sync_paths_settled [OF c1(2), of env rest_api_id lambda_arn]
  obtain c2 xs where c2: "sync_paths c1 env rest_api_id lambda_arn paths = (c2, verdict c1 paths)"
    "tree c2 = tree c1" "methods c2 = methods c1" "calls c2 = calls c1 @ xs" "quiet xs"
    by blast
  show ?thesis
    using c1(1) c2 by (intro exI [of _ c1] exI [of _ c2] exI [of _ "verdict c1 paths"]
        exI [of _ xs]) simp
qed

text \<open>
  C1. From a gateway tree with distinct ids and the root listed, let the loop of \<open>main\<close>
  over the desired paths run once and then once more from the state the first run left,
  whether the first run ended normally or with an exception. The second run leaves the
  resources and the methods as the first run left them, makes no \<open>create_resource\<close> and
  no \<open>put_method\<close> call, and ends as the first one did.
\<close>

theorem sync_paths_idempotent:
  assumes "distinct (map res_id (tree c0))" and "''/'' \<in> set (map res_path (tree c0))"
  shows "tree (fst (sync_paths (fst (sync_paths c0 env rest_api_id lambda_arn paths))
                      env rest_api_id lambda_arn paths)) =
           tree (fst (sync_paths c0 env rest_api_id lambda_arn paths)) \<and>
         methods (fst (sync_paths (fst (sync_paths c0 env rest_api_id lambda_arn paths))
                         env rest_api_id lambda_arn paths)) =
           methods (fst (sync_paths c0 env rest_api_id lambda_arn paths)) \<and>
         filter is_create_resource
           (new_calls (fst (sync_paths c0 env rest_api_id lambda_arn paths))
              (fst (sync_paths (fst (sync_paths c0 env rest_api_id lambda_arn paths))
                      env rest_api_id lambda_arn paths))) = [] \<and>
         filter is_put_method
           (new_calls (fst (sync_paths c0 env rest_api_id lambda_arn paths))
              (fst (sync_paths (fst (sync_paths c0 env rest_api_id lambda_arn paths))
                      env rest_api_id lambda_arn paths))) = [] \<and>
         snd (sync_paths (fst (sync_paths c0 env rest_api_id lambda_arn paths))
                env rest_api_id lambda_arn paths) =
           snd (sync_paths c0 env rest_api_id lambda_arn paths)"
proof -
  have "well_formed c0"
    using assms by (simp add: well_formed_def)
  from sync_paths_twice [OF this, of env rest_api_id lambda_arn paths]
  obtain c1 c2 r xs where run:
    "sync_paths c0 env rest_api_id lambda_arn paths = (c1, r)"
    "sync_paths c1 env rest_api_id lambda_arn paths = (c2, r)"
    "tree c2 = tree c1" "methods c2 = methods c1" "calls c2 = calls c1 @ xs" "quiet xs"
    by blast
  have "new_calls c1 c2 = xs"
    using run(5) by (simp add: new_calls_def)
  then show ?thesis
    using run by (simp add: quiet_def)
qed

theorem sync_paths_idempotent_witness:
  "tree (fst (sync_paths (fst (sync_paths example_gateway example_env ''api1'' example_arn
                                 [''/orders'', ''/orders/{id}'', ''health'']))
                example_env ''api1'' example_arn [''/orders'', ''/orders/{id}'', ''health''])) =
     tree (fst (sync_paths example_gateway example_env ''api1'' example_arn
                  [''/orders'', ''/orders/{id}'', ''health''])) \<and>
   filter is_create_resource
     (new_calls (fst (sync_paths example_gateway example_env ''api1'' example_arn
                        [''/orders'', ''/orders/{id}'', ''health'']))
        (fst (sync_paths (fst (sync_paths example_gateway example_env ''api1'' example_arn
                                 [''/orders'', ''/orders/{id}'', ''health'']))
                example_env ''api1'' example_arn [''/orders'', ''/orders/{id}'', ''health'']))) =
     []"
proof -
  have ids: "distinct (map res_id (tree example_gateway))"
    by (simp add: example_gateway_def)
  have root: "''/'' \<in> set (map res_path (tree example_gateway))"
    by (simp add: example_gateway_def)
  show ?thesis
    using sync_paths_idempotent [OF ids root, of example_env "''api1''" example_arn
        "[''/orders'', ''/orders/{id}'', ''health'']"]
    by simp
qed

end
